theory Spec2Isabelle
  imports Complex_Main "HOL-Library.AList"
begin

section \<open>JavaScript values\<close>

text \<open>
  The dataset module works on loosely typed JavaScript values.  A cell of a record is a
  string, a number, a boolean, a date instance, \<open>null\<close>, \<open>undefined\<close> or a nested
  array or object.  A number is an IEEE double; the code never computes with numbers, it
  only asks whether one is \<open>NaN\<close> or zero, so a finite double is kept as the rational it
  denotes.  A \<open>Date\<close> instance holds a time value in milliseconds, or \<open>NaN\<close> for the
  instance that prints as \<open>Invalid Date\<close>.

  An object is a plain object: the list of its own enumerable properties in the order
  \<open>Object.keys\<close> reports them, on top of what every object inherits from
  \<open>Object.prototype\<close>.  Reading a property that is not an own one can therefore yield a
  built-in function, or \<open>Object.prototype\<close> itself under the name \<open>__proto__\<close>; these
  are the native values.  A new key whose name is an array index is appended like any
  other.
\<close>

datatype jsnum = NaN | Finite rat | PosInfinity | NegInfinity

datatype jsdate = InvalidDate | TimeValue int

datatype native = NativeFunction string | ObjectPrototype

datatype jsval =
    JUndefined
  | JNull
  | JBool bool
  | JNum jsnum
  | JStr string
  | JDate jsdate
  | JArr "jsval list"
  | JObj "(string \<times> jsval) list"
  | JNative native

type_synonym 'v obj = "(string \<times> 'v) list"

text \<open>What a \<open>throw\<close> carries: a \<open>TypeError\<close> of the engine, a \<open>RAWError\<close> (the
  error class the module imports from \<open>./utils\<close>) with its message, or whatever a
  caller's \<open>decode\<close> function throws.\<close>

datatype exn = TypeError | RAWError string | Thrown jsval

subsection \<open>Objects and their prototype\<close>

text \<open>The properties of \<open>Object.prototype\<close>, by name: \<open>constructor\<close> is the function
  \<open>Object\<close>, \<open>__proto__\<close> reads as \<open>Object.prototype\<close> itself, the others are
  functions of their own name.\<close>

definition inherited :: "string \<Rightarrow> native option" where
  "inherited key =
     (if key = ''__proto__'' then Some ObjectPrototype
      else if key = ''constructor'' then Some (NativeFunction ''Object'')
      else if key \<in> set [''__defineGetter__'', ''__defineSetter__'', ''hasOwnProperty'',
                          ''__lookupGetter__'', ''__lookupSetter__'', ''isPrototypeOf'',
                          ''propertyIsEnumerable'', ''toString'', ''valueOf'',
                          ''toLocaleString'']
      then Some (NativeFunction key)
      else None)"

text \<open>\<open>obj[k] = v\<close> on an object that the module created as \<open>{}\<close>: the key is updated
  in place or added at the end; but \<open>__proto__\<close> is an accessor of the prototype, and
  assigning to it changes the prototype of \<open>obj\<close> (or nothing) and adds no own key.\<close>

definition assign :: "string \<Rightarrow> 'v \<Rightarrow> 'v obj \<Rightarrow> 'v obj" where
  "assign k v obj = (if k = ''__proto__'' then obj else AList.update k v obj)"

text \<open>A loop that a \<open>throw\<close> in its body leaves.\<close>

fun foldlE :: "('a \<Rightarrow> 'b \<Rightarrow> exn + 'a) \<Rightarrow> 'a \<Rightarrow> 'b list \<Rightarrow> exn + 'a" where
  "foldlE f a [] = Inr a"
| "foldlE f a (x # xs) = (case f a x of Inl e \<Rightarrow> Inl e | Inr a' \<Rightarrow> foldlE f a' xs)"

subsection \<open>Built-in operations that the shape of a value decides\<close>

text \<open>\<open>Boolean(v)\<close>: every value is true but \<open>undefined\<close>, \<open>null\<close>, \<open>false\<close>, zero,
  \<open>NaN\<close> and the empty string.\<close>

fun truthy :: "jsval \<Rightarrow> bool" where
  "truthy JUndefined = False"
| "truthy JNull = False"
| "truthy (JBool b) = b"
| "truthy (JNum n) = (n \<noteq> NaN \<and> n \<noteq> Finite 0)"
| "truthy (JStr s) = (s \<noteq> [])"
| "truthy (JDate d) = True"
| "truthy (JArr xs) = True"
| "truthy (JObj kvs) = True"
| "truthy (JNative n) = True"

text \<open>lodash's \<open>isNumber\<close>, \<open>isBoolean\<close>, \<open>isDate\<close> and \<open>Array.isArray\<close>.\<close>

fun isNumber :: "jsval \<Rightarrow> bool" where
  "isNumber (JNum n) = True"
| "isNumber v = False"

fun isBoolean :: "jsval \<Rightarrow> bool" where
  "isBoolean (JBool b) = True"
| "isBoolean v = False"

fun isDate :: "jsval \<Rightarrow> bool" where
  "isDate (JDate d) = True"
| "isDate v = False"

fun isArray :: "jsval \<Rightarrow> bool" where
  "isArray (JArr xs) = True"
| "isArray v = False"

text \<open>A dayjs object wraps a \<open>Date\<close>; \<open>isValid()\<close> says that the wrapped instance is
  not \<open>Invalid Date\<close>.\<close>

fun isValid :: "jsdate \<Rightarrow> bool" where
  "isValid InvalidDate = False"
| "isValid (TimeValue t) = True"

text \<open>The decimal name of an array index.\<close>

function decimal :: "nat \<Rightarrow> string" where
  "decimal n =
     (if n < 10 then [char_of (48 + n)]
      else decimal (n div 10) @ [char_of (48 + n mod 10)])"
  by pat_completeness auto
termination
  by (relation "measure id") auto

declare decimal.simps [simp del]

text \<open>The own enumerable properties of a value, as \<open>Object.keys\<close> and indexing see them:
  the elements of an array and the characters of a string under their indices, the
  properties of an object, nothing for the other primitives.  \<open>Object.keys\<close> throws a
  \<open>TypeError\<close> on \<open>null\<close> and \<open>undefined\<close>.\<close>

fun entries :: "jsval \<Rightarrow> exn + jsval obj" where
  "entries JUndefined = Inl TypeError"
| "entries JNull = Inl TypeError"
| "entries (JObj kvs) = Inr kvs"
| "entries (JArr xs) = Inr (zip (map decimal [0..<length xs]) xs)"
| "entries (JStr s) = Inr (zip (map decimal [0..<length s]) (map (\<lambda>c. JStr [c]) s))"
| "entries v = Inr []"

subsection \<open>The runtime: library calls the module makes\<close>

text \<open>
  The module calls into the JavaScript engine, lodash and dayjs.  What the lexical and
  calendar parts of these calls return is not decided by code of this module; the model
  takes them as a record of functions, and every theorem below holds for every such
  record.
  \<^item> \<open>JSON_parse s\<close>: \<open>JSON.parse\<close> on the text \<open>s\<close>, \<open>None\<close> when it throws a
    \<open>SyntaxError\<close>;
  \<^item> \<open>dayjs_parse v fmt\<close>: the instant of \<open>dayjs(v, fmt).utc()\<close>, which is also what its
    \<open>toDate()\<close> returns (the customParseFormat plugin catches every failure of the
    parse and yields \<open>Invalid Date\<close>);
  \<^item> \<open>StringToNumber s\<close>: the number a string converts to (\<open>NaN\<close> when it is not a
    numeric literal);
  \<^item> \<open>NumberToString n\<close> and \<open>DateToString d\<close>: how a number and a date print;
  \<^item> \<open>Date_call\<close>: \<open>Date(v)\<close> called without \<open>new\<close>, which ignores its argument and
    returns the current time as text;
  \<^item> \<open>reIsDeepProp s\<close> and \<open>stringToPath s\<close>: lodash's test for a path with dots or
    brackets, and its splitting of such a path into steps;
  \<^item> \<open>builtinProperty v key\<close> and \<open>builtinHas v key\<close>: \<open>v[key]\<close> and \<open>key in Object(v)\<close>
    for a value \<open>v\<close> that is not a plain object (the characters and the length of a
    string, the elements of an array, the methods of a prototype).
\<close>

record runtime =
  JSON_parse :: "string \<Rightarrow> jsval option"
  dayjs_parse :: "jsval \<Rightarrow> string \<Rightarrow> jsdate"
  StringToNumber :: "string \<Rightarrow> jsnum"
  NumberToString :: "jsnum \<Rightarrow> string"
  DateToString :: "jsdate \<Rightarrow> string"
  Date_call :: string
  reIsDeepProp :: "string \<Rightarrow> bool"
  stringToPath :: "string \<Rightarrow> string list"
  builtinProperty :: "jsval \<Rightarrow> string \<Rightarrow> jsval"
  builtinHas :: "jsval \<Rightarrow> string \<Rightarrow> bool"

text \<open>\<open>String(v)\<close>, which is also the conversion inside a template literal and the one
  \<open>JSON.parse\<close> applies to its argument.  An array prints its elements separated by
  commas, \<open>null\<close> and \<open>undefined\<close> elements as nothing.\<close>

fun joinComma :: "string list \<Rightarrow> string" where
  "joinComma [] = []"
| "joinComma [s] = s"
| "joinComma (s # t # ss) = s @ '','' @ joinComma (t # ss)"

fun toString :: "runtime \<Rightarrow> jsval \<Rightarrow> string" where
  "toString rt JUndefined = ''undefined''"
| "toString rt JNull = ''null''"
| "toString rt (JBool b) = (if b then ''true'' else ''false'')"
| "toString rt (JNum n) = NumberToString rt n"
| "toString rt (JStr s) = s"
| "toString rt (JDate d) = DateToString rt d"
| "toString rt (JArr xs) =
     joinComma (map (\<lambda>x. if x = JNull \<or> x = JUndefined then [] else toString rt x) xs)"
| "toString rt (JObj kvs) = ''[object Object]''"
| "toString rt (JNative (NativeFunction name)) = ''function '' @ name @ ''() { [native code] }''"
| "toString rt (JNative ObjectPrototype) = ''[object Object]''"

text \<open>\<open>Number(v)\<close>, which is also the conversion inside the global \<open>isNaN\<close>.  An array, an
  object or a function converts through its text.\<close>

fun toNumber :: "runtime \<Rightarrow> jsval \<Rightarrow> jsnum" where
  "toNumber rt JUndefined = NaN"
| "toNumber rt JNull = Finite 0"
| "toNumber rt (JBool b) = Finite (if b then 1 else 0)"
| "toNumber rt (JNum n) = n"
| "toNumber rt (JStr s) = StringToNumber rt s"
| "toNumber rt (JDate InvalidDate) = NaN"
| "toNumber rt (JDate (TimeValue t)) = Finite (of_int t)"
| "toNumber rt v = StringToNumber rt (toString rt v)"

subsection \<open>lodash's \<open>get\<close>\<close>

text \<open>
  \<open>get(object, path)\<close> is \<open>undefined\<close> on \<open>null\<close> and \<open>undefined\<close>.  Otherwise the path is
  one key when it consists of word characters only, or has no dots or brackets, or names
  a property of the object; else it is split into steps.  The steps are read one after
  the other, each as \<open>object[key]\<close>, until the path ends or the value is \<open>null\<close> or
  \<open>undefined\<close>; a path that is not read to its end gives \<open>undefined\<close>.
\<close>

definition wordChar :: "char \<Rightarrow> bool" where
  "wordChar c =
     (let n = (of_char c :: nat)
      in (97 \<le> n \<and> n \<le> 122) \<or> (65 \<le> n \<and> n \<le> 90) \<or> (48 \<le> n \<and> n \<le> 57) \<or> n = 95)"

definition reIsPlainProp :: "string \<Rightarrow> bool" where
  "reIsPlainProp s = list_all wordChar s"

fun property :: "runtime \<Rightarrow> jsval \<Rightarrow> string \<Rightarrow> jsval" where
  "property rt (JObj kvs) key =
     (case map_of kvs key of
        Some v \<Rightarrow> v
      | None \<Rightarrow> (case inherited key of Some n \<Rightarrow> JNative n | None \<Rightarrow> JUndefined))"
| "property rt v key = builtinProperty rt v key"

fun hasProperty :: "runtime \<Rightarrow> jsval \<Rightarrow> string \<Rightarrow> bool" where
  "hasProperty rt (JObj kvs) key = (map_of kvs key \<noteq> None \<or> inherited key \<noteq> None)"
| "hasProperty rt v key = builtinHas rt v key"

definition isKey :: "runtime \<Rightarrow> string \<Rightarrow> jsval \<Rightarrow> bool" where
  "isKey rt value object =
     (reIsPlainProp value \<or> \<not> reIsDeepProp rt value \<or> hasProperty rt object value)"

definition castPath :: "runtime \<Rightarrow> string \<Rightarrow> jsval \<Rightarrow> string list" where
  "castPath rt value object = (if isKey rt value object then [value] else stringToPath rt value)"

fun walk :: "runtime \<Rightarrow> jsval \<Rightarrow> string list \<Rightarrow> jsval" where
  "walk rt object [] = object"
| "walk rt object (key # path) =
     (if object = JNull \<or> object = JUndefined then JUndefined
      else walk rt (property rt object key) path)"

definition baseGet :: "runtime \<Rightarrow> jsval \<Rightarrow> string \<Rightarrow> jsval" where
  "baseGet rt object path =
     (let steps = castPath rt path object
      in if steps = [] then JUndefined else walk rt object steps)"

definition get :: "runtime \<Rightarrow> jsval \<Rightarrow> string \<Rightarrow> jsval" where
  "get rt object path =
     (if object = JNull \<or> object = JUndefined then JUndefined else baseGet rt object path)"

section \<open>Type descriptors\<close>

text \<open>
  A column's type is written as one of the constructors \<open>Number\<close>, \<open>Boolean\<close>,
  \<open>String\<close>, \<open>Date\<close>, as the lower-case name of one (\<open>"number"\<close>, ...: what
  \<open>inferTypes\<close> returns), or as a plain object with the optional fields \<open>type\<close>,
  \<open>dateFormat\<close> (kept when it is a string) and \<open>decode\<close> (kept when it is a function).
\<close>

datatype ctor = CNumber | CBoolean | CString | CDate

datatype dataType =
    Ctor ctor
  | Label ctor
  | Plain "dataType option" "string option" "(jsval \<Rightarrow> exn + jsval) option"

type_synonym formatter = "jsval \<Rightarrow> exn + jsval"

fun labelName :: "ctor \<Rightarrow> string" where
  "labelName CNumber = ''number''"
| "labelName CBoolean = ''boolean''"
| "labelName CString = ''string''"
| "labelName CDate = ''date''"

text \<open>Modelled from the spec: \<open>getType\<close> is imported from \<open>./utils\<close>, which is not among
  the sources.  The spec speaks of the descriptor's primitive tag, one of Number, Boolean,
  String and Date: a constructor or its name is its own tag, a plain object has the tag of
  its \<open>type\<close> field, and an object without that field has none (\<open>undefined\<close>).\<close>

fun getType :: "dataType \<Rightarrow> ctor option" where
  "getType (Ctor c) = Some c"
| "getType (Label c) = Some c"
| "getType (Plain None fmt dec) = None"
| "getType (Plain (Some t) fmt dec) = getType t"

text \<open>The formatter of a descriptor: none unless it is a plain object; its \<open>decode\<close>
  when that is a function; the dayjs parse with its \<open>dateFormat\<close> when the type is Date
  and the format a string.\<close>

definition getFormatter :: "runtime \<Rightarrow> dataType \<Rightarrow> formatter option" where
  "getFormatter rt dataType =
     (case dataType of
        Plain t dateFormat decode \<Rightarrow>
          (case decode of
             Some f \<Rightarrow> Some f
           | None \<Rightarrow>
               (if getType dataType = Some CDate
                then (case dateFormat of
                        Some fmt \<Rightarrow> Some (\<lambda>value. Inr (JDate (dayjs_parse rt value fmt)))
                      | None \<Rightarrow> None)
                else None))
      | _ \<Rightarrow> None)"

definition getValueType :: "runtime \<Rightarrow> jsval \<Rightarrow> bool \<Rightarrow> dataType" where
  "getValueType rt value strict =
     (let jsonValue =
            (if \<not> strict
             then (case JSON_parse rt (toString rt value) of
                     Some parsed \<Rightarrow> parsed
                   | None \<Rightarrow> value)
             else value);
          dateFormatTest = ''YYYY-MM-DD''
      in if isNumber jsonValue then Label CNumber
         else if isBoolean jsonValue then Label CBoolean
         else if isDate value then Label CDate
         else if isValid (dayjs_parse rt value dateFormatTest)
              then Plain (Some (Label CDate)) (Some dateFormatTest) None
         else Label CString)"

text \<open>\<open>type.name ? type.name.toLowerCase() : type\<close>: a constructor has a name, a string
  and the object that \<open>getValueType\<close> builds have none.\<close>

fun castTypeToString :: "dataType \<Rightarrow> dataType" where
  "castTypeToString (Ctor c) = Label c"
| "castTypeToString type = type"

section \<open>Type inference\<close>

text \<open>The first loop of \<open>inferTypes\<close>: every own key of a row adds the label of its
  value to the column's list of candidates.  The list is created when
  \<open>candidateTypes[key]\<close> reads \<open>undefined\<close>; for a key that \<open>candidateTypes\<close> inherits
  the read is not \<open>undefined\<close>, no list is created, and \<open>.push\<close> is not a function.
  \<open>props\<close> are the own properties of the row.\<close>

definition addCandidate ::
  "runtime \<Rightarrow> bool \<Rightarrow> jsval obj \<Rightarrow> dataType list obj \<Rightarrow> string \<Rightarrow> exn + dataType list obj" where
  "addCandidate rt strict props candidateTypes key =
     (let candidateTypes' =
            (if map_of candidateTypes key = None \<and> inherited key = None
             then assign key [] candidateTypes
             else candidateTypes);
          inferredType =
            getValueType rt (case map_of props key of Some v \<Rightarrow> v | None \<Rightarrow> JUndefined) strict
      in case map_of candidateTypes' key of
           Some labels \<Rightarrow>
             Inr (AList.update key (labels @ [castTypeToString inferredType]) candidateTypes')
         | None \<Rightarrow> Inl TypeError)"

fun collectCandidates ::
  "runtime \<Rightarrow> bool \<Rightarrow> jsval list \<Rightarrow> dataType list obj \<Rightarrow> exn + dataType list obj" where
  "collectCandidates rt strict [] candidateTypes = Inr candidateTypes"
| "collectCandidates rt strict (datum # data) candidateTypes =
     (case entries datum of
        Inl e \<Rightarrow> Inl e
      | Inr props \<Rightarrow>
          (case foldlE (addCandidate rt strict props) candidateTypes (map fst props) of
             Inl e \<Rightarrow> Inl e
           | Inr candidateTypes' \<Rightarrow> collectCandidates rt strict data candidateTypes'))"

text \<open>\<open>counts[type]\<close> uses a candidate as a property key, so the engine converts it to
  a string: a string is its own key, every plain object becomes \<open>[object Object]\<close>, a
  function becomes its source text.  None of these keys is a name that \<open>counts\<close>
  inherits.\<close>

fun ctorName :: "ctor \<Rightarrow> string" where
  "ctorName CNumber = ''Number''"
| "ctorName CBoolean = ''Boolean''"
| "ctorName CString = ''String''"
| "ctorName CDate = ''Date''"

fun propertyKey :: "dataType \<Rightarrow> string" where
  "propertyKey (Label c) = labelName c"
| "propertyKey (Plain t fmt dec) = ''[object Object]''"
| "propertyKey (Ctor c) = ''function '' @ ctorName c @ ''() { [native code] }''"

text \<open>One step of the tally: \<open>counts[type]\<close> is created as \<open>{count: 0, value: type}\<close> when
  it is missing, then its count goes up by one.\<close>

definition countType :: "(nat \<times> dataType) obj \<Rightarrow> dataType \<Rightarrow> (nat \<times> dataType) obj" where
  "countType counts type =
     (let key = propertyKey type;
          counts' =
            (if map_of counts key = None then AList.update key (0, type) counts else counts)
      in case map_of counts' key of
           Some (count, value) \<Rightarrow> AList.update key (count + 1, value) counts'
         | None \<Rightarrow> counts')"

text \<open>lodash's \<open>maxBy\<close>: \<open>undefined\<close> on an empty array; otherwise it walks the array and
  replaces its result only by an element whose score is greater, so the first of several
  maximal elements is returned.\<close>

fun baseExtremum :: "('a \<Rightarrow> nat) \<Rightarrow> 'a \<Rightarrow> 'a list \<Rightarrow> 'a" where
  "baseExtremum iteratee result [] = result"
| "baseExtremum iteratee result (value # array) =
     baseExtremum iteratee (if iteratee value > iteratee result then value else result) array"

fun maxBy :: "'a list \<Rightarrow> ('a \<Rightarrow> nat) \<Rightarrow> 'a option" where
  "maxBy [] iteratee = None"
| "maxBy (value # array) iteratee = Some (baseExtremum iteratee value array)"

text \<open>The body of the second loop, for one column: tally the candidates, take the most
  frequent key and return the value stored with it.  Reading \<open>.value\<close> of a missing entry
  would be a \<open>TypeError\<close>.\<close>

definition countOf :: "(nat \<times> dataType) obj \<Rightarrow> string \<Rightarrow> nat" where
  "countOf counts t = (case map_of counts t of Some (count, value) \<Rightarrow> count | None \<Rightarrow> 0)"

definition mostFrequentType :: "dataType list \<Rightarrow> exn + dataType" where
  "mostFrequentType candidates =
     (let counts = foldl countType [] candidates
      in case maxBy (map fst counts) (countOf counts) of
           None \<Rightarrow> Inl TypeError
         | Some mostFrequentTypeKey \<Rightarrow>
             (case map_of counts mostFrequentTypeKey of
                Some (count, value) \<Rightarrow> Inr value
              | None \<Rightarrow> Inl TypeError))"

fun voteColumns ::
  "dataType list obj \<Rightarrow> string list \<Rightarrow> dataType obj \<Rightarrow> exn + dataType obj" where
  "voteColumns candidateTypes [] inferredTypes = Inr inferredTypes"
| "voteColumns candidateTypes (k # ks) inferredTypes =
     (case map_of candidateTypes k of
        None \<Rightarrow> Inl TypeError
      | Some candidates \<Rightarrow>
          (case mostFrequentType candidates of
             Inl e \<Rightarrow> Inl e
           | Inr value \<Rightarrow>
               voteColumns candidateTypes ks (assign k value inferredTypes)))"

definition inferTypes :: "runtime \<Rightarrow> jsval \<Rightarrow> bool \<Rightarrow> exn + dataType obj" where
  "inferTypes rt data strict =
     (case data of
        JArr rows \<Rightarrow>
          (case collectCandidates rt strict rows [] of
             Inl e \<Rightarrow> Inl e
           | Inr candidateTypes \<Rightarrow> voteColumns candidateTypes (map fst candidateTypes) [])
      | _ \<Rightarrow> Inr [])"

section \<open>Parsing\<close>

text \<open>\<open>type(rowValue)\<close>: the resolved type called as a function.  \<open>Date\<close> called without
  \<open>new\<close> returns text; calling \<open>undefined\<close> is a \<open>TypeError\<close>.\<close>

fun callType :: "runtime \<Rightarrow> ctor option \<Rightarrow> jsval \<Rightarrow> exn + jsval" where
  "callType rt None v = Inl TypeError"
| "callType rt (Some CNumber) v = Inr (JNum (toNumber rt v))"
| "callType rt (Some CBoolean) v = Inr (JBool (truthy v))"
| "callType rt (Some CString) v = Inr (JStr (toString rt v))"
| "callType rt (Some CDate) v = Inr (JStr (Date_call rt))"

definition basicGetter :: "jsval \<Rightarrow> (jsval \<Rightarrow> exn + jsval) \<Rightarrow> exn + jsval" where
  "basicGetter rowValue dataType =
     (if rowValue = JNull \<or> rowValue = JUndefined then Inr JNull else dataType rowValue)"

text \<open>\<open>value instanceof Date && dayjs(value).isValid()\<close>.\<close>

fun validDateInstance :: "jsval \<Rightarrow> bool" where
  "validDateInstance (JDate d) = isValid d"
| "validDateInstance v = False"

definition checkType :: "runtime \<Rightarrow> jsval \<Rightarrow> ctor option \<Rightarrow> exn + unit" where
  "checkType rt value type =
     (if type = Some CNumber \<and> toNumber rt value = NaN
      then Inl (RAWError (''invalid type number for value '' @ toString rt value))
      else if type = Some CDate \<and> \<not> validDateInstance value
      then Inl (RAWError (''invalid type date for value '' @ toString rt value))
      else Inr ())"

text \<open>\<open>propGetters[k]\<close>, the getter that \<open>rowParser\<close> builds for column \<open>k\<close>.\<close>

definition propGetter :: "runtime \<Rightarrow> string \<Rightarrow> dataType \<Rightarrow> jsval \<Rightarrow> exn + jsval" where
  "propGetter rt k dataType row =
     (let type = getType dataType;
          formatter = getFormatter rt dataType;
          rowValue = get rt row k
      in case (case formatter of Some f \<Rightarrow> f rowValue | None \<Rightarrow> Inr rowValue) of
           Inl e \<Rightarrow> Inl e
         | Inr formattedValue \<Rightarrow>
             (case basicGetter formattedValue
                     (case formatter of Some f \<Rightarrow> Inr | None \<Rightarrow> callType rt type) of
                Inl e \<Rightarrow> Inl e
              | Inr out \<Rightarrow>
                  (case checkType rt out type of Inl e \<Rightarrow> Inl e | Inr u \<Rightarrow> Inr out)))"

text \<open>The body of the row loop: \<open>try { out[k] = getter(row) } catch (err) { out[k] = null;
  error[k] = err }\<close>.\<close>

definition parseCell ::
  "(jsval \<Rightarrow> exn + jsval) obj \<Rightarrow> jsval \<Rightarrow> jsval obj \<times> exn obj \<Rightarrow> string \<Rightarrow> jsval obj \<times> exn obj" where
  "parseCell propGetters row acc k =
     (case map_of propGetters k of
        None \<Rightarrow> acc
      | Some getter \<Rightarrow>
          (case getter row of
             Inr v \<Rightarrow> (assign k v (fst acc), snd acc)
           | Inl err \<Rightarrow> (assign k JNull (fst acc), assign k err (snd acc))))"

text \<open>The getter table, filled by \<open>propGetters[k] = ...\<close> for every key of the type
  map.  The table is created as \<open>{}\<close>, so the assignment to \<open>__proto__\<close> adds no getter:
  it makes the getter, a function, the prototype of the table.  From then on the table
  inherits the properties of a function, and the assignment to one of them that the
  table does not own is a \<open>TypeError\<close> when the property is read-only on a function
  (\<open>name\<close>, \<open>length\<close>) or has a setter that throws (\<open>arguments\<close>, \<open>caller\<close>); the source
  is a module, hence strict code.  The table is modelled by its own properties and a
  flag that tells whether its prototype is a function.\<close>

definition lockedOnFunction :: "string \<Rightarrow> bool" where
  "lockedOnFunction k = (k = ''name'' \<or> k = ''length'' \<or> k = ''arguments'' \<or> k = ''caller'')"

definition setGetter ::
  "string \<Rightarrow> (jsval \<Rightarrow> exn + jsval) \<Rightarrow> bool \<times> (jsval \<Rightarrow> exn + jsval) obj
     \<Rightarrow> exn + bool \<times> (jsval \<Rightarrow> exn + jsval) obj" where
  "setGetter k getter table =
     (if k = ''__proto__'' then Inr (True, snd table)
      else if fst table \<and> lockedOnFunction k \<and> map_of (snd table) k = None then Inl TypeError
      else Inr (fst table, AList.update k getter (snd table)))"

definition buildGetters :: "runtime \<Rightarrow> dataType obj \<Rightarrow> exn + (jsval \<Rightarrow> exn + jsval) obj" where
  "buildGetters rt types =
     (case foldlE (\<lambda>table k. case map_of types k of
                               Some dataType \<Rightarrow> setGetter k (propGetter rt k dataType) table
                             | None \<Rightarrow> Inr table)
             (False, []) (map fst types) of
        Inl e \<Rightarrow> Inl e
      | Inr table \<Rightarrow> Inr (snd table))"

text \<open>The row loop over the keys of the getter table, starting from the empty \<open>out\<close>
  and \<open>error\<close> objects.\<close>

definition parseCells :: "(jsval \<Rightarrow> exn + jsval) obj \<Rightarrow> jsval \<Rightarrow> jsval obj \<times> exn obj" where
  "parseCells propGetters row =
     foldl (parseCell propGetters row) ([], []) (map fst propGetters)"

text \<open>The function that \<open>rowParser(types, onError)\<close> returns, applied to a row and its
  index.  The callback changes state outside the parser, so the parser takes that state
  and returns it.  When the getter table does not build, \<open>rowParser(types, onError)\<close>
  throws and returns no function; that branch is in \<open>parseRows\<close>, which makes the call,
  and \<open>builtGetters\<close> is then the empty table.\<close>

definition builtGetters :: "runtime \<Rightarrow> dataType obj \<Rightarrow> (jsval \<Rightarrow> exn + jsval) obj" where
  "builtGetters rt types =
     (case buildGetters rt types of Inr propGetters \<Rightarrow> propGetters | Inl e \<Rightarrow> [])"

definition rowParser ::
  "runtime \<Rightarrow> dataType obj \<Rightarrow> (exn obj \<Rightarrow> nat \<Rightarrow> 's \<Rightarrow> 's) option \<Rightarrow> jsval \<Rightarrow> nat \<Rightarrow> 's
     \<Rightarrow> jsval obj \<times> 's" where
  "rowParser rt types onError row i s =
     (let propGetters = builtGetters rt types;
          acc = parseCells propGetters row;
          out = fst acc;
          error = snd acc
      in (out,
          if error \<noteq> [] then (case onError of Some f \<Rightarrow> f error i s | None \<Rightarrow> s) else s))"

text \<open>The two objects the parser fills for one row: the parsed row \<open>out\<close> and the
  object \<open>error\<close> of the exceptions caught in it.\<close>

definition rowOut :: "runtime \<Rightarrow> dataType obj \<Rightarrow> jsval \<Rightarrow> jsval obj" where
  "rowOut rt types row = fst (parseCells (builtGetters rt types) row)"

definition rowError :: "runtime \<Rightarrow> dataType obj \<Rightarrow> jsval \<Rightarrow> exn obj" where
  "rowError rt types row = snd (parseCells (builtGetters rt types) row)"

text \<open>\<open>Array.prototype.map\<close> with a callback that also changes state: the elements are
  visited in order, each with its index.\<close>

fun arrayMap :: "('a \<Rightarrow> nat \<Rightarrow> 's \<Rightarrow> 'b \<times> 's) \<Rightarrow> 'a list \<Rightarrow> nat \<Rightarrow> 's \<Rightarrow> 'b list \<times> 's" where
  "arrayMap f [] i s = ([], s)"
| "arrayMap f (x # xs) i s =
     (let r = f x i s; rest = arrayMap f xs (Suc i) (snd r)
      in (fst r # fst rest, snd rest))"

text \<open>An entry of the error list is \<open>{row: i, error}\<close>, here the pair of the two.
  \<open>parseRows\<close> first calls \<open>rowParser\<close>, which throws when the getter table does not
  build; \<open>data.map\<close> exists only on an array: on any other value the call is a
  \<open>TypeError\<close>.\<close>

definition pushError :: "exn obj \<Rightarrow> nat \<Rightarrow> (nat \<times> exn obj) list \<Rightarrow> (nat \<times> exn obj) list" where
  "pushError error i errors = errors @ [(i, error)]"

definition parseRows ::
  "runtime \<Rightarrow> jsval \<Rightarrow> dataType obj \<Rightarrow> exn + jsval obj list \<times> (nat \<times> exn obj) list" where
  "parseRows rt data dataTypes =
     (case buildGetters rt dataTypes of
        Inl e \<Rightarrow> Inl e
      | Inr propGetters \<Rightarrow>
          (let parser = rowParser rt dataTypes (Some pushError)
           in case data of
                JArr rows \<Rightarrow> Inr (arrayMap parser rows 0 [])
              | _ \<Rightarrow> Inl TypeError))"

record parserResult =
  dataset :: "jsval obj list"
  dataTypes :: "dataType obj"
  errors :: "(nat \<times> exn obj) list"

text \<open>\<open>types || inferTypes(data)\<close>: a type map is an object and so never falsy; \<open>None\<close> is
  the omitted argument.  \<open>inferTypes\<close> is called without \<open>strict\<close>, which is then
  \<open>undefined\<close> and counts as false.\<close>

definition parseDataset :: "runtime \<Rightarrow> jsval \<Rightarrow> dataType obj option \<Rightarrow> exn + parserResult" where
  "parseDataset rt data types =
     (case (case types of Some t \<Rightarrow> Inr t | None \<Rightarrow> inferTypes rt data False) of
        Inl e \<Rightarrow> Inl e
      | Inr resolved \<Rightarrow>
          (case parseRows rt data resolved of
             Inl e \<Rightarrow> Inl e
           | Inr parsed \<Rightarrow>
               Inr \<lparr>dataset = fst parsed, dataTypes = resolved, errors = snd parsed\<rparr>))"

section \<open>Notions used in the statements\<close>

text \<open>The candidates of a column, read off the input: each row contributes the label of
  its value for every own key equal to the column's name (none when the row lacks the
  column), rows from top to bottom.\<close>

definition candidateOf :: "runtime \<Rightarrow> bool \<Rightarrow> jsval obj \<Rightarrow> string \<Rightarrow> dataType" where
  "candidateOf rt strict props key =
     castTypeToString
       (getValueType rt (case map_of props key of Some v \<Rightarrow> v | None \<Rightarrow> JUndefined) strict)"

definition rowCandidates :: "runtime \<Rightarrow> bool \<Rightarrow> jsval \<Rightarrow> string \<Rightarrow> dataType list" where
  "rowCandidates rt strict datum k =
     (case entries datum of
        Inl e \<Rightarrow> []
      | Inr props \<Rightarrow> map (candidateOf rt strict props) (filter (\<lambda>key. key = k) (map fst props)))"

definition columnCandidates :: "runtime \<Rightarrow> bool \<Rightarrow> jsval list \<Rightarrow> string \<Rightarrow> dataType list" where
  "columnCandidates rt strict rows k =
     concat (map (\<lambda>datum. rowCandidates rt strict datum k) rows)"

definition lookupList :: "'a list obj \<Rightarrow> string \<Rightarrow> 'a list" where
  "lookupList c k = (case map_of c k of None \<Rightarrow> [] | Some l \<Rightarrow> l)"

text \<open>A row that inference can read: it is neither \<open>null\<close> nor \<open>undefined\<close>, and none of
  its own keys is a name that every object inherits (\<open>constructor\<close>, \<open>toString\<close>,
  \<open>valueOf\<close>, \<open>__proto__\<close>, ...).\<close>

definition inferable :: "jsval \<Rightarrow> bool" where
  "inferable datum =
     (case entries datum of
        Inl e \<Rightarrow> False
      | Inr props \<Rightarrow> list_all (\<lambda>key. inherited key = None) (map fst props))"

text \<open>The position at which a key is first met in a list of keys (the length of the list
  when it never is).\<close>

definition firstIndex :: "'a list \<Rightarrow> 'a \<Rightarrow> nat" where
  "firstIndex xs x = length (takeWhile (\<lambda>y. y \<noteq> x) xs)"

text \<open>What the \<open>try\<close>/\<open>catch\<close> of the row loop stores for the outcome of a getter.\<close>

fun cellValue :: "exn + jsval \<Rightarrow> jsval" where
  "cellValue (Inr v) = v"
| "cellValue (Inl e) = JNull"

fun cellError :: "exn + jsval \<Rightarrow> exn option" where
  "cellError (Inr v) = None"
| "cellError (Inl e) = Some e"


text \<open>A type map whose getter table builds: every key after the first \<open>__proto__\<close>
  that a function locks (\<open>name\<close>, \<open>length\<close>, \<open>arguments\<close>, \<open>caller\<close>) is a key that
  the table already owns, one that comes before that \<open>__proto__\<close>.  The keys of an
  object are distinct, so this says that no such key follows a key \<open>__proto__\<close>.\<close>

definition tableBuilds :: "dataType obj \<Rightarrow> bool" where
  "tableBuilds types =
     (let keys = map fst types;
          before = takeWhile (\<lambda>k. k \<noteq> ''__proto__'') keys;
          after = dropWhile (\<lambda>k. k \<noteq> ''__proto__'') keys
      in list_all (\<lambda>k. lockedOnFunction k \<longrightarrow> k \<in> set before) after)"

text \<open>A record omits a column: the record is a plain object that has no property, own or
  inherited, under the first step of the column's path.\<close>

definition omitsColumn :: "runtime \<Rightarrow> jsval \<Rightarrow> string \<Rightarrow> bool" where
  "omitsColumn rt row k =
     (case row of
        JObj kvs \<Rightarrow>
          (case castPath rt k row of
             [] \<Rightarrow> True
           | step # steps \<Rightarrow> map_of kvs step = None \<and> inherited step = None)
      | _ \<Rightarrow> False)"

subsection \<open>A runtime for the worked examples\<close>

text \<open>
  The theorems hold for every runtime.  Their closed instances need one: this runtime
  answers as Node does on the values the examples use (the texts \<open>3\<close>, \<open>4\<close>, \<open>5\<close>,
  \<open>true\<close>, \<open>false\<close>, \<open>null\<close>, \<open>x\<close> and \<open>bad\<close>, the dates \<open>2020-01-01\<close> and
  \<open>2020-02-02\<close> under the pattern \<open>YYYY-MM-DD\<close>, records with column names made of
  word characters), and treats every other text as neither a literal nor a date.  It
  prints a non-negative integer in decimal; it takes a name with a dot for a path and
  splits it at the dots; it finds no property on a value that is not a plain object.
\<close>

fun splitDots :: "string \<Rightarrow> string list" where
  "splitDots [] = [[]]"
| "splitDots (c # cs) =
     (if c = CHR ''.'' then [] # splitDots cs
      else (case splitDots cs of [] \<Rightarrow> [[c]] | step # steps \<Rightarrow> (c # step) # steps))"

definition sampleRuntime :: runtime where
  "sampleRuntime =
     \<lparr> JSON_parse =
         map_of [(''3'', JNum (Finite 3)), (''4'', JNum (Finite 4)), (''5'', JNum (Finite 5)),
                 (''true'', JBool True), (''false'', JBool False), (''null'', JNull)],
       dayjs_parse =
         (\<lambda>v fmt. if fmt = ''YYYY-MM-DD'' \<and> v = JStr ''2020-01-01'' then TimeValue 1577836800000
                   else if fmt = ''YYYY-MM-DD'' \<and> v = JStr ''2020-02-02'' then TimeValue 1580601600000
                   else InvalidDate),
       StringToNumber =
         (\<lambda>s. case map_of [(''3'', Finite 3), (''4'', Finite 4), (''5'', Finite 5), ([], Finite 0)] s of
                 Some n \<Rightarrow> n
               | None \<Rightarrow> NaN),
       NumberToString =
         (\<lambda>n. case n of
                 NaN \<Rightarrow> ''NaN''
               | PosInfinity \<Rightarrow> ''Infinity''
               | NegInfinity \<Rightarrow> ''-Infinity''
               | Finite q \<Rightarrow> (if 0 \<le> q \<and> q = of_int \<lfloor>q\<rfloor> then decimal (nat \<lfloor>q\<rfloor>)
                              else ''NaN'')),
       DateToString =
         (\<lambda>d. case d of
                 InvalidDate \<Rightarrow> ''Invalid Date''
               | TimeValue t \<Rightarrow> ''Wed Jan 01 2020 00:00:00 GMT+0000 (Coordinated Universal Time)''),
       Date_call = ''Tue Nov 03 2026 00:00:00 GMT+0000 (Coordinated Universal Time)'',
       reIsDeepProp = (\<lambda>s. CHR ''.'' \<in> set s),
       stringToPath = splitDots,
       builtinProperty = (\<lambda>v key. JUndefined),
       builtinHas = (\<lambda>v key. False) \<rparr>"

text \<open>A caller's \<open>decode\<close> function that accepts text only, \<open>(v) => { if (typeof v !==
  "string") throw new TypeError(); return v }\<close>.\<close>

fun textDecode :: "jsval \<Rightarrow> exn + jsval" where
  "textDecode (JStr s) = Inr (JStr s)"
| "textDecode v = Inl TypeError"

section \<open>Assignment and lookup\<close>

lemma inherited_proto [simp]: "inherited ''__proto__'' = Some ObjectPrototype"
  by (simp add: inherited_def)

lemma map_of_assign:
  "map_of (assign k v al) = (if k = ''__proto__'' then map_of al else (map_of al)(k \<mapsto> v))"
  by (simp add: assign_def update_conv')

lemma keys_assign:
  "fst ` set (assign k v al) =
   (if k = ''__proto__'' then fst ` set al else insert k (fst ` set al))"
  by (simp add: assign_def dom_update)

lemma distinct_assign: "distinct (map fst al) \<Longrightarrow> distinct (map fst (assign k v al))"
  by (simp add: assign_def distinct_update)


lemma map_of_key_iff: "k \<in> set (map fst al) \<longleftrightarrow> map_of al k \<noteq> None"
  by (simp add: map_of_eq_None_iff)

section \<open>The getter table\<close>

text \<open>What the table holds when it builds, and for which type maps it builds.\<close>

lemma foldlE_setGetter_result:
  assumes "foldlE (\<lambda>table k. case map_of types k of
                               Some dataType \<Rightarrow> setGetter k (g k dataType) table
                             | None \<Rightarrow> Inr table) table ks = Inr table'"
    and "set ks \<subseteq> fst ` set types"
  shows "map_of (snd table') k =
           (if k \<in> set ks \<and> k \<noteq> ''__proto__'' then map_option (g k) (map_of types k)
            else map_of (snd table) k)"
  using assms
proof (induction ks arbitrary: table)
  case Nil
  then show ?case by simp
next
  case (Cons x ks)
  from Cons.prems(2) obtain d where d: "map_of types x = Some d"
    using map_of_key_iff[of x types] by auto
  from Cons.prems(1) d obtain t where t: "setGetter x (g x d) table = Inr t"
    and rest: "foldlE (\<lambda>table k. case map_of types k of
                               Some dataType \<Rightarrow> setGetter k (g k dataType) table
                             | None \<Rightarrow> Inr table) t ks = Inr table'"
    by (cases "setGetter x (g x d) table") simp_all
  from Cons.prems(2) have sub: "set ks \<subseteq> fst ` set types" by simp
  have step: "map_of (snd t) k =
        (if k = x \<and> k \<noteq> ''__proto__'' then Some (g x d) else map_of (snd table) k)"
    using t by (auto simp: setGetter_def update_conv' split: if_splits)
  show ?case
    unfolding Cons.IH[OF rest sub] step using d by auto
qed

lemma foldlE_setGetter_keys:
  assumes "foldlE (\<lambda>table k. case map_of types k of
                               Some dataType \<Rightarrow> setGetter k (g k dataType) table
                             | None \<Rightarrow> Inr table) table ks = Inr table'"
    and "set ks \<subseteq> fst ` set types"
  shows "fst ` set (snd table') = fst ` set (snd table) \<union> (set ks - {''__proto__''})"
proof -
  have "k \<in> fst ` set (snd table') \<longleftrightarrow> k \<in> fst ` set (snd table) \<union> (set ks - {''__proto__''})"
    for k
  proof -
    have "k \<in> fst ` set (snd table') \<longleftrightarrow> map_of (snd table') k \<noteq> None"
      using map_of_key_iff[of k "snd table'"] by simp
    also have "\<dots> \<longleftrightarrow> (if k \<in> set ks \<and> k \<noteq> ''__proto__'' then map_of types k \<noteq> None
                           else map_of (snd table) k \<noteq> None)"
      unfolding foldlE_setGetter_result[OF assms] by simp
    also have "\<dots> \<longleftrightarrow> k \<in> fst ` set (snd table) \<union> (set ks - {''__proto__''})"
      using assms(2) map_of_key_iff[of k types] map_of_key_iff[of k "snd table"] by auto
    finally show ?thesis .
  qed
  then show ?thesis by blast
qed

lemma foldlE_setGetter_locked:
  assumes "set ks \<subseteq> fst ` set types"
    and "\<forall>k\<in>set ks. lockedOnFunction k \<longrightarrow> k \<in> fst ` set al"
  shows "\<exists>t. foldlE (\<lambda>table k. case map_of types k of
                               Some dataType \<Rightarrow> setGetter k (g k dataType) table
                             | None \<Rightarrow> Inr table) (True, al) ks = Inr t"
  using assms
proof (induction ks arbitrary: al)
  case Nil
  show ?case by (simp del: split_paired_Ex)
next
  case (Cons x ks)
  from Cons.prems(1) obtain d where d: "map_of types x = Some d"
    using map_of_key_iff[of x types] by auto
  show ?case
  proof (cases "x = ''__proto__''")
    case True
    have "\<exists>t. foldlE (\<lambda>table k. case map_of types k of
                               Some dataType \<Rightarrow> setGetter k (g k dataType) table
                             | None \<Rightarrow> Inr table) (True, al) ks = Inr t"
      using Cons.prems by (intro Cons.IH) auto
    then obtain t where "foldlE (\<lambda>table k. case map_of types k of
                               Some dataType \<Rightarrow> setGetter k (g k dataType) table
                             | None \<Rightarrow> Inr table) (True, al) ks = Inr t" ..
    with True d show ?thesis by (intro exI[of _ t]) (simp add: setGetter_def)
  next
    case False
    have own: "lockedOnFunction x \<longrightarrow> map_of al x \<noteq> None"
      using Cons.prems(2) map_of_key_iff[of x al] by simp
    have "\<exists>t. foldlE (\<lambda>table k. case map_of types k of
                               Some dataType \<Rightarrow> setGetter k (g k dataType) table
                             | None \<Rightarrow> Inr table) (True, AList.update x (g x d) al) ks = Inr t"
      using Cons.prems by (intro Cons.IH) (auto simp: dom_update)
    then obtain t where
      "foldlE (\<lambda>table k. case map_of types k of
                               Some dataType \<Rightarrow> setGetter k (g k dataType) table
                             | None \<Rightarrow> Inr table) (True, AList.update x (g x d) al) ks = Inr t" ..
    with False d own show ?thesis by (intro exI[of _ t]) (auto simp: setGetter_def)
  qed
qed

lemma foldlE_setGetter_builds:
  assumes "set ks \<subseteq> fst ` set types"
    and "\<forall>k\<in>set (dropWhile (\<lambda>k. k \<noteq> ''__proto__'') ks).
           lockedOnFunction k \<longrightarrow> k \<in> fst ` set al \<union> set (takeWhile (\<lambda>k. k \<noteq> ''__proto__'') ks)"
  shows "\<exists>t. foldlE (\<lambda>table k. case map_of types k of
                               Some dataType \<Rightarrow> setGetter k (g k dataType) table
                             | None \<Rightarrow> Inr table) (False, al) ks = Inr t"
  using assms
proof (induction ks arbitrary: al)
  case Nil
  show ?case by (simp del: split_paired_Ex)
next
  case (Cons x ks)
  from Cons.prems(1) obtain d where d: "map_of types x = Some d"
    using map_of_key_iff[of x types] by auto
  show ?case
  proof (cases "x = ''__proto__''")
    case True
    have "\<exists>t. foldlE (\<lambda>table k. case map_of types k of
                               Some dataType \<Rightarrow> setGetter k (g k dataType) table
                             | None \<Rightarrow> Inr table) (True, al) ks = Inr t"
      using Cons.prems True by (intro foldlE_setGetter_locked) auto
    then obtain t where "foldlE (\<lambda>table k. case map_of types k of
                               Some dataType \<Rightarrow> setGetter k (g k dataType) table
                             | None \<Rightarrow> Inr table) (True, al) ks = Inr t" ..
    with True d show ?thesis by (intro exI[of _ t]) (simp add: setGetter_def)
  next
    case False
    have "\<exists>t. foldlE (\<lambda>table k. case map_of types k of
                               Some dataType \<Rightarrow> setGetter k (g k dataType) table
                             | None \<Rightarrow> Inr table) (False, AList.update x (g x d) al) ks = Inr t"
      using Cons.prems False by (intro Cons.IH) (auto simp: dom_update)
    then obtain t where
      "foldlE (\<lambda>table k. case map_of types k of
                               Some dataType \<Rightarrow> setGetter k (g k dataType) table
                             | None \<Rightarrow> Inr table) (False, AList.update x (g x d) al) ks = Inr t" ..
    with False d show ?thesis by (intro exI[of _ t]) (simp add: setGetter_def)
  qed
qed

lemma buildGetters_builds: "tableBuilds types \<Longrightarrow> \<exists>table. buildGetters rt types = Inr table"
proof -
  assume "tableBuilds types"
  then have "\<forall>k\<in>set (dropWhile (\<lambda>k. k \<noteq> ''__proto__'') (map fst types)).
           lockedOnFunction k \<longrightarrow>
           k \<in> fst ` set [] \<union> set (takeWhile (\<lambda>k. k \<noteq> ''__proto__'') (map fst types))"
    by (simp add: tableBuilds_def Let_def list_all_iff)
  moreover have "set (map fst types) \<subseteq> fst ` set types" by simp
  ultimately obtain t where
    "foldlE (\<lambda>table k. case map_of types k of
                               Some dataType \<Rightarrow> setGetter k (propGetter rt k dataType) table
                             | None \<Rightarrow> Inr table) (False, []) (map fst types) = Inr t"
    using foldlE_setGetter_builds[where g = "propGetter rt" and ks = "map fst types"
        and types = types and al = "[]"]
    by blast
  then show ?thesis by (simp add: buildGetters_def)
qed

lemma tableBuilds_no_proto [simp]: "''__proto__'' \<notin> fst ` set types \<Longrightarrow> tableBuilds types"
proof -
  assume "''__proto__'' \<notin> fst ` set types"
  then have dw: "dropWhile (\<lambda>k. k \<noteq> ''__proto__'') (map fst types) = []"
    by (force simp: dropWhile_eq_Nil_conv)
  show "tableBuilds types" unfolding tableBuilds_def Let_def dw by simp
qed

lemma buildGetters_no_proto:
  "''__proto__'' \<notin> fst ` set types \<Longrightarrow> \<exists>table. buildGetters rt types = Inr table"
  by (rule buildGetters_builds) simp

lemma buildGetters_map_of:
  assumes "buildGetters rt types = Inr table"
  shows "map_of table k =
   (if k = ''__proto__'' then None else map_option (propGetter rt k) (map_of types k))"
proof -
  from assms obtain t where
    t: "foldlE (\<lambda>table k. case map_of types k of
                               Some dataType \<Rightarrow> setGetter k (propGetter rt k dataType) table
                             | None \<Rightarrow> Inr table) (False, []) (map fst types) = Inr t"
    and table: "table = snd t"
    by (auto simp: buildGetters_def split: sum.splits)
  have "map_of (snd t) k =
           (if k \<in> set (map fst types) \<and> k \<noteq> ''__proto__''
            then map_option (propGetter rt k) (map_of types k)
            else map_of (snd (False, [])) k)"
    by (rule foldlE_setGetter_result[OF t]) simp
  then show ?thesis
    unfolding table using map_of_key_iff[of k types] by auto
qed

lemma buildGetters_keys:
  assumes "buildGetters rt types = Inr table"
  shows "fst ` set table = fst ` set types - {''__proto__''}"
proof -
  from assms obtain t where
    t: "foldlE (\<lambda>table k. case map_of types k of
                               Some dataType \<Rightarrow> setGetter k (propGetter rt k dataType) table
                             | None \<Rightarrow> Inr table) (False, []) (map fst types) = Inr t"
    and table: "table = snd t"
    by (auto simp: buildGetters_def split: sum.splits)
  from foldlE_setGetter_keys[OF t] show ?thesis unfolding table by simp
qed

lemma builtGetters_eq: "buildGetters rt types = Inr table \<Longrightarrow> builtGetters rt types = table"
  by (simp add: builtGetters_def)

section \<open>The parser, row by row\<close>

text \<open>What the parsed row and the error object of a row hold, key by key, for a type map
  whose getter table builds, and what \<open>data.map(parser)\<close> returns and leaves in the
  error list.\<close>

lemma foldl_parseCell_out:
  "map_of (fst (foldl (parseCell pg row) acc ks)) k =
   (if k \<noteq> ''__proto__'' \<and> k \<in> set ks \<and> map_of pg k \<noteq> None
    then map_option (\<lambda>getter. cellValue (getter row)) (map_of pg k)
    else map_of (fst acc) k)"
  by (induction ks arbitrary: acc)
     (auto simp: parseCell_def map_of_assign split: option.splits sum.splits)

lemma foldl_parseCell_error:
  "map_of (snd (foldl (parseCell pg row) acc ks)) k =
   (if k \<noteq> ''__proto__'' \<and> k \<in> set ks \<and>
       (\<exists>getter e. map_of pg k = Some getter \<and> getter row = Inl e)
    then Option.bind (map_of pg k) (\<lambda>getter. cellError (getter row))
    else map_of (snd acc) k)"
  by (induction ks arbitrary: acc)
     (auto simp: parseCell_def map_of_assign split: option.splits sum.splits)

lemma foldl_parseCell_keys:
  "fst ` set (fst (foldl (parseCell pg row) acc ks)) =
   fst ` set (fst acc) \<union> {k \<in> set ks. k \<noteq> ''__proto__'' \<and> map_of pg k \<noteq> None}"
  by (induction ks arbitrary: acc)
     (auto simp: parseCell_def keys_assign split: option.splits sum.splits)

lemma rowOut_map_of:
  assumes "buildGetters rt types = Inr table"
  shows "map_of (rowOut rt types row) k =
   (if k = ''__proto__'' then None
    else map_option (\<lambda>d. cellValue (propGetter rt k d row)) (map_of types k))"
proof -
  have "map_of (rowOut rt types row) k =
        (if k \<noteq> ''__proto__'' \<and> map_of table k \<noteq> None
         then map_option (\<lambda>getter. cellValue (getter row)) (map_of table k) else None)"
    unfolding rowOut_def parseCells_def foldl_parseCell_out map_of_key_iff
      builtGetters_eq[OF assms] by simp
  then show ?thesis
    by (cases "map_of types k") (simp_all add: buildGetters_map_of[OF assms])
qed

lemma rowOut_keys:
  assumes "buildGetters rt types = Inr table"
  shows "fst ` set (rowOut rt types row) = fst ` set types - {''__proto__''}"
proof -
  have "fst ` set (rowOut rt types row) =
        {k \<in> fst ` set table. k \<noteq> ''__proto__'' \<and> map_of table k \<noteq> None}"
    unfolding rowOut_def parseCells_def foldl_parseCell_keys builtGetters_eq[OF assms] by simp
  also have "\<dots> = fst ` set table"
    using map_of_key_iff[of _ table] buildGetters_keys[OF assms] by auto
  finally show ?thesis by (simp only: buildGetters_keys[OF assms])
qed

lemma rowError_map_of:
  assumes "buildGetters rt types = Inr table"
  shows "map_of (rowError rt types row) k =
   (if k = ''__proto__'' then None
    else Option.bind (map_of types k) (\<lambda>d. cellError (propGetter rt k d row)))"
proof -
  have e: "map_of (rowError rt types row) k =
        (if k \<noteq> ''__proto__'' \<and> (\<exists>getter e. map_of table k = Some getter \<and> getter row = Inl e)
         then Option.bind (map_of table k) (\<lambda>getter. cellError (getter row)) else None)"
    unfolding rowError_def parseCells_def foldl_parseCell_error map_of_key_iff
      builtGetters_eq[OF assms] by auto
  show ?thesis
  proof (cases "k = ''__proto__''")
    case True
    with e show ?thesis by simp
  next
    case False
    show ?thesis
    proof (cases "map_of types k")
      case None
      with False show ?thesis by (simp add: e buildGetters_map_of[OF assms])
    next
      case (Some d)
      with False show ?thesis
        by (cases "propGetter rt k d row") (simp_all add: e buildGetters_map_of[OF assms])
    qed
  qed
qed

lemma rowParser_eq:
  "rowParser rt types (Some pushError) row i errs =
   (rowOut rt types row,
    if rowError rt types row \<noteq> [] then errs @ [(i, rowError rt types row)] else errs)"
  by (simp add: rowParser_def rowOut_def rowError_def pushError_def Let_def)

lemma rowParser_out: "fst (rowParser rt types onError row i s) = rowOut rt types row"
  by (simp add: rowParser_def rowOut_def Let_def)

lemma arrayMap_collect:
  assumes f: "\<And>row i errs. f row i errs = (g row, if h row \<noteq> [] then errs @ [(i, h row)] else errs)"
  shows "arrayMap f rows i errs =
   (map g rows,
    errs @ map (\<lambda>j. (i + j, h (rows ! j))) (filter (\<lambda>j. h (rows ! j) \<noteq> []) [0..<length rows]))"
proof (induction rows arbitrary: i errs)
  case Nil
  then show ?case by simp
next
  case (Cons r rows)
  have upt: "[0..<length (r # rows)] = 0 # map Suc [0..<length rows]"
    by (simp add: upt_conv_Cons map_Suc_upt del: upt_Suc)
  show ?case
    unfolding upt
    apply (simp only: arrayMap.simps Let_def Cons.IH)
    apply (simp add: f filter_map comp_def del: upt_Suc)
    done
qed

lemma arrayMap_rowParser:
  "arrayMap (rowParser rt types (Some pushError)) rows i errs =
   (map (rowOut rt types) rows,
    errs @ map (\<lambda>j. (i + j, rowError rt types (rows ! j)))
             (filter (\<lambda>j. rowError rt types (rows ! j) \<noteq> []) [0..<length rows]))"
  by (rule arrayMap_collect) (rule rowParser_eq)

section \<open>The tally and the vote\<close>

text \<open>The \<open>counts\<close> object holds, for every key, how often it occurs and the first
  candidate seen with it; its keys stand in the order in which they were first met;
  \<open>maxBy\<close> returns the first key of maximal count.\<close>


lemma countType_map_of:
  "map_of (countType counts c) =
   (map_of counts)(propertyKey c \<mapsto>
      (case map_of counts (propertyKey c) of None \<Rightarrow> (1, c) | Some (n, v) \<Rightarrow> (n + 1, v)))"
  by (auto simp: countType_def Let_def update_conv' split: option.splits)

lemma countType_keys:
  "map fst (countType counts c) =
   (if propertyKey c \<in> set (map fst counts) then map fst counts
    else map fst counts @ [propertyKey c])"
  by (auto simp: countType_def Let_def update_keys map_of_eq_None_iff split: option.splits)

lemma find_snoc:
  "find P (xs @ [x]) = (case find P xs of Some y \<Rightarrow> Some y | None \<Rightarrow> if P x then Some x else None)"
  by (induction xs) auto

lemma tally_map_of:
  "map_of (foldl countType [] cs) k =
   map_option (\<lambda>v. (count_list (map propertyKey cs) k, v)) (find (\<lambda>c. propertyKey c = k) cs)"
proof (induction cs rule: rev_induct)
  case Nil
  then show ?case by simp
next
  case (snoc c cs)
  show ?case
  proof (cases "find (\<lambda>c. propertyKey c = k) cs")
    case None
    then have "count_list (map propertyKey cs) k = 0"
      by (auto simp: find_None_iff count_list_0_iff)
    with None snoc show ?thesis
      by (auto simp: countType_map_of find_snoc)
  next
    case (Some v)
    with snoc show ?thesis
      by (auto simp: countType_map_of find_snoc)
  qed
qed

lemma firstIndex_snoc_old: "a \<in> set ks \<Longrightarrow> firstIndex (ks @ [k]) a = firstIndex ks a"
  by (simp add: firstIndex_def)

lemma firstIndex_less: "a \<in> set ks \<Longrightarrow> firstIndex ks a < length ks"
  unfolding firstIndex_def
  by (induction ks) auto

lemma firstIndex_snoc_new: "a \<notin> set ks \<Longrightarrow> firstIndex (ks @ [a]) a = length ks"
  unfolding firstIndex_def by (induction ks) auto

lemma tally_keys_set: "set (map fst (foldl countType [] cs)) = set (map propertyKey cs)"
  by (induction cs rule: rev_induct) (auto simp: countType_keys)

lemma tally_keys_order:
  "sorted_wrt (\<lambda>a b. firstIndex (map propertyKey cs) a < firstIndex (map propertyKey cs) b)
     (map fst (foldl countType [] cs))"
proof (induction cs rule: rev_induct)
  case Nil
  then show ?case by simp
next
  case (snoc c cs)
  let ?ks = "map propertyKey cs"
  let ?keys = "map fst (foldl countType [] cs)"
  have mem: "set ?keys = set ?ks" by (rule tally_keys_set)
  have old: "sorted_wrt (\<lambda>a b. firstIndex (?ks @ [propertyKey c]) a < firstIndex (?ks @ [propertyKey c]) b) ?keys"
  proof (rule sorted_wrt_mono_rel[OF _ snoc])
    fix a b
    assume "a \<in> set ?keys" "b \<in> set ?keys" "firstIndex ?ks a < firstIndex ?ks b"
    then show "firstIndex (?ks @ [propertyKey c]) a < firstIndex (?ks @ [propertyKey c]) b"
      unfolding mem by (simp add: firstIndex_snoc_old)
  qed
  show ?case
  proof (cases "propertyKey c \<in> set ?keys")
    case True
    with old show ?thesis by (simp add: countType_keys)
  next
    case False
    then have "\<forall>a\<in>set ?keys. firstIndex (?ks @ [propertyKey c]) a < firstIndex (?ks @ [propertyKey c]) (propertyKey c)"
      using mem firstIndex_less[of _ ?ks]
      by (auto simp: firstIndex_snoc_old firstIndex_snoc_new simp del: set_map)
    with old False show ?thesis
      by (simp add: countType_keys sorted_wrt_append)
  qed
qed


lemma baseExtremum_first_max:
  "\<exists>w. baseExtremum f r xs = w \<and> w \<in> set (r # xs) \<and> f r \<le> f w \<and> (\<forall>y\<in>set xs. f y \<le> f w) \<and>
       (w = r \<or> (\<exists>pre post. xs = pre @ w # post \<and> f r < f w \<and> (\<forall>y\<in>set pre. f y < f w)))"
proof (induction xs arbitrary: r)
  case Nil
  then show ?case by simp
next
  case (Cons x xs)
  show ?case
  proof (cases "f x > f r")
    case True
    from Cons[of x] obtain w where w: "baseExtremum f x xs = w" "w \<in> set (x # xs)" "f x \<le> f w"
      "\<forall>y\<in>set xs. f y \<le> f w"
      "w = x \<or> (\<exists>pre post. xs = pre @ w # post \<and> f x < f w \<and> (\<forall>y\<in>set pre. f y < f w))"
      by blast
    from w(5) have "\<exists>pre post. x # xs = pre @ w # post \<and> f r < f w \<and> (\<forall>y\<in>set pre. f y < f w)"
    proof
      assume "w = x"
      with True show ?thesis by (intro exI[of _ "[]"] exI[of _ xs]) auto
    next
      assume "\<exists>pre post. xs = pre @ w # post \<and> f x < f w \<and> (\<forall>y\<in>set pre. f y < f w)"
      then obtain pre post where "xs = pre @ w # post" "f x < f w" "\<forall>y\<in>set pre. f y < f w" by blast
      with True show ?thesis by (intro exI[of _ "x # pre"] exI[of _ post]) auto
    qed
    with w True show ?thesis by auto
  next
    case False
    from Cons[of r] obtain w where w: "baseExtremum f r xs = w" "w \<in> set (r # xs)" "f r \<le> f w"
      "\<forall>y\<in>set xs. f y \<le> f w"
      "w = r \<or> (\<exists>pre post. xs = pre @ w # post \<and> f r < f w \<and> (\<forall>y\<in>set pre. f y < f w))"
      by blast
    from w(5) have "w = r \<or> (\<exists>pre post. x # xs = pre @ w # post \<and> f r < f w \<and> (\<forall>y\<in>set pre. f y < f w))"
    proof
      assume "w = r" then show ?thesis by simp
    next
      assume "\<exists>pre post. xs = pre @ w # post \<and> f r < f w \<and> (\<forall>y\<in>set pre. f y < f w)"
      then obtain pre post where "xs = pre @ w # post" "f r < f w" "\<forall>y\<in>set pre. f y < f w" by blast
      with False have "x # xs = (x # pre) @ w # post \<and> f r < f w \<and> (\<forall>y\<in>set (x # pre). f y < f w)" by auto
      then show ?thesis by blast
    qed
    with w False show ?thesis by auto
  qed
qed

lemma maxBy_first_max:
  assumes "sorted_wrt R keys" and "keys \<noteq> []"
  shows "\<exists>w. maxBy keys f = Some w \<and> w \<in> set keys \<and> (\<forall>y\<in>set keys. f y \<le> f w \<and> (f y = f w \<longrightarrow> y = w \<or> R w y))"
proof -
  from assms(2) obtain r xs where keys: "keys = r # xs" by (cases keys) auto
  from baseExtremum_first_max[of f r xs] obtain w where w: "baseExtremum f r xs = w" "w \<in> set (r # xs)" "f r \<le> f w"
      "\<forall>y\<in>set xs. f y \<le> f w"
      "w = r \<or> (\<exists>pre post. xs = pre @ w # post \<and> f r < f w \<and> (\<forall>y\<in>set pre. f y < f w))"
    by blast
  have "f y = f w \<Longrightarrow> y = w \<or> R w y" if y: "y \<in> set keys" for y
    using w(5)
  proof
    assume "w = r"
    with y assms(1) show ?thesis unfolding keys by auto
  next
    assume "\<exists>pre post. xs = pre @ w # post \<and> f r < f w \<and> (\<forall>y\<in>set pre. f y < f w)"
    then obtain pre post where pp: "xs = pre @ w # post" "f r < f w" "\<forall>y\<in>set pre. f y < f w" by blast
    assume eq: "f y = f w"
    with pp y have "y = w \<or> y \<in> set post" unfolding keys by auto
    moreover from assms(1) have "\<forall>z\<in>set post. R w z"
      unfolding keys pp by (simp add: sorted_wrt_append)
    ultimately show ?thesis by blast
  qed
  with w show ?thesis unfolding keys by auto
qed


lemma count_list_find_None: "find (\<lambda>c. g c = k) cs = None \<Longrightarrow> count_list (map g cs) k = 0"
  by (auto simp: find_None_iff count_list_0_iff)

lemma tally_countOf: "countOf (foldl countType [] cs) k = count_list (map propertyKey cs) k"
  by (cases "find (\<lambda>c. propertyKey c = k) cs")
     (simp_all add: countOf_def tally_map_of count_list_find_None)

lemma find_key: "find (\<lambda>c. g c = k) cs = Some v \<Longrightarrow> g v = k \<and> v \<in> set cs"
  by (induction cs) (auto split: if_splits)

lemma mostFrequentType_winner:
  assumes "cs \<noteq> []"
  shows "\<exists>w. mostFrequentType cs = Inr w \<and>
            find (\<lambda>c. propertyKey c = propertyKey w) cs = Some w \<and>
            (\<forall>k. count_list (map propertyKey cs) k \<le> count_list (map propertyKey cs) (propertyKey w)) \<and>
            (\<forall>k. k \<noteq> propertyKey w \<and>
                  count_list (map propertyKey cs) k = count_list (map propertyKey cs) (propertyKey w) \<longrightarrow>
                  firstIndex (map propertyKey cs) (propertyKey w) < firstIndex (map propertyKey cs) k)"
proof -
  let ?ks = "map propertyKey cs"
  let ?counts = "foldl countType [] cs"
  let ?keys = "map fst ?counts"
  let ?R = "\<lambda>a b. firstIndex ?ks a < firstIndex ?ks b"
  have keys: "set ?keys = set ?ks" by (rule tally_keys_set)
  with assms have "?keys \<noteq> []" by auto
  from maxBy_first_max[OF tally_keys_order this, of "countOf ?counts"]
  obtain m where m: "maxBy ?keys (countOf ?counts) = Some m" "m \<in> set ?keys"
    "\<forall>y\<in>set ?keys. countOf ?counts y \<le> countOf ?counts m \<and>
        (countOf ?counts y = countOf ?counts m \<longrightarrow> y = m \<or> ?R m y)"
    by blast
  from m(2) keys have "m \<in> set ?ks" by simp
  then obtain w where w: "find (\<lambda>c. propertyKey c = m) cs = Some w"
    by (cases "find (\<lambda>c. propertyKey c = m) cs") (auto simp: find_None_iff)
  then have wm: "propertyKey w = m" by (auto dest: find_key)
  have res: "mostFrequentType cs = Inr w"
    by (simp add: mostFrequentType_def m(1) tally_map_of w)
  have pos: "0 < count_list ?ks m"
    using \<open>m \<in> set ?ks\<close> by (simp add: count_list_0_iff zero_less_iff_neq_zero)
  have le: "count_list ?ks k \<le> count_list ?ks m" for k
  proof (cases "k \<in> set ?ks")
    case True
    with m(3) keys show ?thesis by (simp add: tally_countOf del: set_map)
  next
    case False
    then show ?thesis by (simp add: count_list_0_iff)
  qed
  have tie: "firstIndex ?ks m < firstIndex ?ks k" if "k \<noteq> m" "count_list ?ks k = count_list ?ks m" for k
  proof -
    from that(2) pos have "k \<in> set ?ks" by (metis count_list_0_iff less_numeral_extra(3))
    with m(3) keys that show ?thesis by (auto simp: tally_countOf simp del: set_map)
  qed
  from res w le tie show ?thesis unfolding wm[symmetric] by (intro exI[of _ w]) (simp add: wm)
qed

section \<open>Collecting the candidates\<close>

text \<open>On rows that inference can read, the first loop returns, and \<open>candidateTypes\<close> holds
  for every column its candidates in row order.\<close>

lemma addCandidate_returns:
  assumes "inherited key = None"
  shows "\<exists>c'. addCandidate rt strict props c key = Inr c' \<and>
              map_of c' = (map_of c)(key \<mapsto> lookupList c key @ [candidateOf rt strict props key])"
proof -
  from assms have "key \<noteq> ''__proto__''" by auto
  with assms show ?thesis
    by (auto simp: addCandidate_def candidateOf_def lookupList_def Let_def update_conv'
        map_of_assign split: option.splits)
qed

lemma foldlE_addCandidate:
  assumes "list_all (\<lambda>key. inherited key = None) keys"
  shows "\<exists>c'. foldlE (addCandidate rt strict props) c keys = Inr c' \<and>
     (\<forall>k. map_of c' k =
        (if k \<in> set keys
         then Some (lookupList c k @
                    map (candidateOf rt strict props) (filter (\<lambda>key. key = k) keys))
         else map_of c k))"
  using assms
proof (induction keys arbitrary: c)
  case Nil
  then show ?case by simp
next
  case (Cons key keys)
  then have key: "inherited key = None" and rest: "list_all (\<lambda>key. inherited key = None) keys"
    by simp_all
  from addCandidate_returns[OF key, of rt strict props c] obtain c1 where
    c1: "addCandidate rt strict props c key = Inr c1"
        "map_of c1 = (map_of c)(key \<mapsto> lookupList c key @ [candidateOf rt strict props key])"
    by blast
  from Cons.IH[OF rest, of c1] obtain c' where
    c': "foldlE (addCandidate rt strict props) c1 keys = Inr c'"
        "\<And>k. map_of c' k =
        (if k \<in> set keys
         then Some (lookupList c1 k @
                    map (candidateOf rt strict props) (filter (\<lambda>key. key = k) keys))
         else map_of c1 k)"
    by blast
  have "map_of c' k =
        (if k \<in> set (key # keys)
         then Some (lookupList c k @
                    map (candidateOf rt strict props) (filter (\<lambda>key. key = k) (key # keys)))
         else map_of c k)" for k
    by (auto simp: c'(2) c1(2) lookupList_def filter_empty_conv)
  with c1(1) c'(1) show ?case by simp
qed

lemma collectCandidates_map_of:
  assumes "\<forall>r\<in>set rows. inferable r"
  shows "\<exists>c'. collectCandidates rt strict rows c = Inr c' \<and>
     (\<forall>k. map_of c' k =
        (if columnCandidates rt strict rows k = [] then map_of c k
         else Some (lookupList c k @ columnCandidates rt strict rows k)))"
  using assms
proof (induction rows arbitrary: c)
  case Nil
  then show ?case by (simp add: columnCandidates_def)
next
  case (Cons datum rows)
  then have "inferable datum" by simp
  then obtain props where props: "entries datum = Inr props"
    and keys: "list_all (\<lambda>key. inherited key = None) (map fst props)"
    by (cases "entries datum") (auto simp: inferable_def)
  from foldlE_addCandidate[OF keys, of rt strict props c] obtain c1 where
    c1: "foldlE (addCandidate rt strict props) c (map fst props) = Inr c1"
        "\<And>k. map_of c1 k =
        (if k \<in> set (map fst props)
         then Some (lookupList c k @
                    map (candidateOf rt strict props) (filter (\<lambda>key. key = k) (map fst props)))
         else map_of c k)"
    by blast
  from Cons.prems have "\<forall>r\<in>set rows. inferable r" by simp
  from Cons.IH[OF this, of c1] obtain c' where
    c': "collectCandidates rt strict rows c1 = Inr c'"
        "\<And>k. map_of c' k =
        (if columnCandidates rt strict rows k = [] then map_of c1 k
         else Some (lookupList c1 k @ columnCandidates rt strict rows k))"
    by blast
  have row: "rowCandidates rt strict datum k =
      map (candidateOf rt strict props) (filter (\<lambda>key. key = k) (map fst props))" for k
    by (simp add: rowCandidates_def props)
  have col: "columnCandidates rt strict (datum # rows) k =
      rowCandidates rt strict datum k @ columnCandidates rt strict rows k" for k
    by (simp add: columnCandidates_def)
  have empty: "k \<notin> set (map fst props) \<longleftrightarrow> rowCandidates rt strict datum k = []" for k
    unfolding row by (auto simp: filter_empty_conv)
  have "map_of c' k =
        (if columnCandidates rt strict (datum # rows) k = [] then map_of c k
         else Some (lookupList c k @ columnCandidates rt strict (datum # rows) k))" for k
    unfolding c'(2) col using empty[of k]
    by (auto simp: c1(2) lookupList_def row[symmetric] simp del: set_map)
  with props c1(1) c'(1) show ?case by simp
qed

lemma columnCandidates_inherited:
  assumes "\<forall>r\<in>set rows. inferable r" and "inherited k \<noteq> None"
  shows "columnCandidates rt strict rows k = []"
proof -
  have "rowCandidates rt strict r k = []" if "inferable r" for r
    using that assms(2)
    by (cases "entries r") (auto simp: rowCandidates_def inferable_def filter_empty_conv list_all_iff)
  with assms(1) show ?thesis by (simp add: columnCandidates_def)
qed

lemma voteColumns_map_of:
  assumes "\<forall>k\<in>set ks. \<exists>cs. map_of cands k = Some cs \<and> cs \<noteq> []"
  shows "\<exists>tm. voteColumns cands ks acc = Inr tm \<and>
      (\<forall>k. map_of tm k =
         (if k \<noteq> ''__proto__'' \<and> k \<in> set ks
          then (case map_of cands k of
                  Some cs \<Rightarrow> (case mostFrequentType cs of Inr w \<Rightarrow> Some w | Inl e \<Rightarrow> None)
                | None \<Rightarrow> None)
          else map_of acc k))"
  using assms
proof (induction ks arbitrary: acc)
  case Nil
  then show ?case by simp
next
  case (Cons k ks)
  then obtain cs where cs: "map_of cands k = Some cs" "cs \<noteq> []" by auto
  from mostFrequentType_winner[OF cs(2)] obtain w where w: "mostFrequentType cs = Inr w" by blast
  from Cons.prems have "\<forall>k\<in>set ks. \<exists>cs. map_of cands k = Some cs \<and> cs \<noteq> []" by simp
  from Cons.IH[OF this, of "assign k w acc"]
  obtain tm where tm: "voteColumns cands ks (assign k w acc) = Inr tm"
     "\<And>k'. map_of tm k' =
         (if k' \<noteq> ''__proto__'' \<and> k' \<in> set ks
          then (case map_of cands k' of
                  Some cs \<Rightarrow> (case mostFrequentType cs of Inr w \<Rightarrow> Some w | Inl e \<Rightarrow> None)
                | None \<Rightarrow> None)
          else map_of (assign k w acc) k')"
    by blast
  show ?case
    by (rule exI[of _ tm]) (auto simp: cs w tm map_of_assign)
qed

lemma inferTypes_array:
  assumes "\<forall>r\<in>set rows. inferable r"
  shows "\<exists>tm. inferTypes rt (JArr rows) strict = Inr tm \<and>
     (\<forall>k. map_of tm k =
        (if columnCandidates rt strict rows k = [] then None
         else (case mostFrequentType (columnCandidates rt strict rows k) of
                 Inr w \<Rightarrow> Some w | Inl e \<Rightarrow> None)))"
proof -
  from collectCandidates_map_of[OF assms, of rt strict "[]"] obtain c where
    c: "collectCandidates rt strict rows [] = Inr c"
    and look0: "\<And>k. map_of c k =
        (if columnCandidates rt strict rows k = [] then map_of [] k
         else Some (lookupList [] k @ columnCandidates rt strict rows k))"
    by blast
  have look: "map_of c k = (if columnCandidates rt strict rows k = [] then None
      else Some (columnCandidates rt strict rows k))" for k
    using look0[of k] by (simp add: lookupList_def)
  have "\<forall>k\<in>set (map fst c). \<exists>cs. map_of c k = Some cs \<and> cs \<noteq> []"
  proof
    fix k assume "k \<in> set (map fst c)"
    then have "map_of c k \<noteq> None" by (simp add: map_of_eq_None_iff)
    then show "\<exists>cs. map_of c k = Some cs \<and> cs \<noteq> []" unfolding look by (auto split: if_splits)
  qed
  from voteColumns_map_of[OF this, of "[]"] obtain tm where tm: "voteColumns c (map fst c) [] = Inr tm"
    "\<And>k. map_of tm k =
         (if k \<noteq> ''__proto__'' \<and> k \<in> set (map fst c)
          then (case map_of c k of
                  Some cs \<Rightarrow> (case mostFrequentType cs of Inr w \<Rightarrow> Some w | Inl e \<Rightarrow> None)
                | None \<Rightarrow> None)
          else map_of [] k)"
    by blast
  have "map_of tm k =
        (if columnCandidates rt strict rows k = [] then None
         else (case mostFrequentType (columnCandidates rt strict rows k) of
                 Inr w \<Rightarrow> Some w | Inl e \<Rightarrow> None))" for k
  proof (cases "columnCandidates rt strict rows k = []")
    case True
    then have "map_of c k = None" by (simp add: look)
    then have "k \<notin> set (map fst c)" by (simp add: map_of_eq_None_iff)
    with True show ?thesis by (simp add: tm(2))
  next
    case False
    then have s: "map_of c k = Some (columnCandidates rt strict rows k)" by (simp add: look)
    then have mem: "k \<in> set (map fst c)" using map_of_key_iff[of k c] by simp
    from False columnCandidates_inherited[OF assms, of k rt strict] have "k \<noteq> ''__proto__''"
      by auto
    with False s mem show ?thesis by (simp add: tm(2))
  qed
  with c tm(1) show ?thesis by (simp add: inferTypes_def)
qed

text \<open>Inference does not read the clock.\<close>

lemma toString_clock: "toString (rt\<lparr>Date_call := clock\<rparr>) v = toString rt v"
proof (induction rt v rule: toString.induct)
  case (7 rt xs)
  have "map (\<lambda>x. if x = JNull \<or> x = JUndefined then [] else toString (rt\<lparr>Date_call := clock\<rparr>) x) xs =
        map (\<lambda>x. if x = JNull \<or> x = JUndefined then [] else toString rt x) xs"
    by (rule map_cong) (auto simp: 7)
  then show ?case unfolding toString.simps by (rule arg_cong)
qed simp_all

lemma getValueType_clock:
  "getValueType (rt\<lparr>Date_call := clock\<rparr>) v strict = getValueType rt v strict"
  by (simp add: getValueType_def toString_clock Let_def)

lemma addCandidate_clock:
  "addCandidate (rt\<lparr>Date_call := clock\<rparr>) strict props = addCandidate rt strict props"
  by (simp add: addCandidate_def getValueType_clock fun_eq_iff)

lemma collectCandidates_clock:
  "collectCandidates (rt\<lparr>Date_call := clock\<rparr>) strict rows c = collectCandidates rt strict rows c"
  by (induction rows arbitrary: c) (simp_all add: addCandidate_clock split: sum.splits)

lemma inferTypes_clock:
  "inferTypes (rt\<lparr>Date_call := clock\<rparr>) data strict = inferTypes rt data strict"
  by (cases data) (simp_all add: inferTypes_def collectCandidates_clock)

section \<open>The parser on a whole dataset\<close>

text \<open>On an array, \<open>parseRows\<close> returns the parsed rows in order and the error list with
  one entry for each row whose error object is not empty.\<close>

lemma parseRows_array:
  assumes "buildGetters rt tys = Inr table"
  shows "parseRows rt (JArr rows) tys =
   Inr (map (rowOut rt tys) rows,
        map (\<lambda>j. (j, rowError rt tys (rows ! j)))
          (filter (\<lambda>j. rowError rt tys (rows ! j) \<noteq> []) [0..<length rows]))"
  using assms by (simp add: parseRows_def arrayMap_rowParser)

lemma parseRows_builds:
  "parseRows rt data tys = Inr parsed \<Longrightarrow> \<exists>table. buildGetters rt tys = Inr table"
  by (cases "buildGetters rt tys") (simp_all add: parseRows_def)

lemma parseDataset_builds:
  assumes "parseDataset rt data types = Inr res"
  shows "\<exists>table. buildGetters rt (dataTypes res) = Inr table"
proof -
  from assms obtain parsed where "parseRows rt data (dataTypes res) = Inr parsed"
    by (auto simp: parseDataset_def split: sum.splits option.splits)
  then show ?thesis by (rule parseRows_builds)
qed

lemma parseDataset_array:
  assumes "parseDataset rt (JArr rows) types = Inr res"
  shows "dataset res = map (rowOut rt (dataTypes res)) rows"
    and "errors res = map (\<lambda>j. (j, rowError rt (dataTypes res) (rows ! j)))
          (filter (\<lambda>j. rowError rt (dataTypes res) (rows ! j) \<noteq> []) [0..<length rows])"
proof -
  from assms obtain parsed where
    p: "parseRows rt (JArr rows) (dataTypes res) = Inr parsed"
      "dataset res = fst parsed" "errors res = snd parsed"
    by (auto simp: parseDataset_def split: sum.splits option.splits)
  from parseRows_builds[OF p(1)] obtain table where
    "buildGetters rt (dataTypes res) = Inr table" ..
  from parseRows_array[OF this, of rows] p
  show "dataset res = map (rowOut rt (dataTypes res)) rows"
    and "errors res = map (\<lambda>j. (j, rowError rt (dataTypes res) (rows ! j)))
          (filter (\<lambda>j. rowError rt (dataTypes res) (rows ! j) \<noteq> []) [0..<length rows])"
    by simp_all
qed

lemma parseDataset_supplied:
  assumes "tableBuilds tys"
  shows "parseDataset rt (JArr rows) (Some tys) =
   Inr \<lparr>dataset = map (rowOut rt tys) rows, dataTypes = tys,
        errors = map (\<lambda>j. (j, rowError rt tys (rows ! j)))
          (filter (\<lambda>j. rowError rt tys (rows ! j) \<noteq> []) [0..<length rows])\<rparr>"
proof -
  from buildGetters_builds[OF assms] obtain table where "buildGetters rt tys = Inr table" ..
  then show ?thesis by (simp add: parseDataset_def parseRows_array)
qed

lemma parseDataset_dataTypes:
  "parseDataset rt data (Some tys) = Inr res \<Longrightarrow> dataTypes res = tys"
  by (auto simp: parseDataset_def split: sum.splits)

lemma errors_entry:
  assumes "parseDataset rt (JArr rows) types = Inr res"
  shows "(i, err) \<in> set (errors res) \<longleftrightarrow>
         i < length rows \<and> err = rowError rt (dataTypes res) (rows ! i) \<and> err \<noteq> []"
  unfolding parseDataset_array(2)[OF assms] by auto





lemma rowOut_distinct: "distinct (map fst (rowOut rt types row))"
proof -
  have "distinct (map fst (fst acc)) \<Longrightarrow> distinct (map fst (fst (foldl (parseCell pg row) acc ks)))"
    for pg acc ks
    by (induction ks arbitrary: acc)
       (auto simp: parseCell_def distinct_assign split: option.splits sum.splits)
  then show ?thesis by (simp add: rowOut_def parseCells_def)
qed

text \<open>\<open>get\<close> on a record that omits the column.\<close>

lemma walk_undefined: "walk rt JUndefined steps = JUndefined"
  by (cases steps) simp_all

lemma get_omitted: "omitsColumn rt row k \<Longrightarrow> get rt row k = JUndefined"
  by (cases row; cases "castPath rt k row")
     (auto simp: omitsColumn_def get_def baseGet_def Let_def walk_undefined)

text \<open>A value that is absent stays \<open>null\<close> when the column is not a Date and its
  formatter, if it has one, maps the absent value to \<open>null\<close> or \<open>undefined\<close>.\<close>

lemma propGetter_absent:
  assumes "getType d \<noteq> Some CDate"
    and "get rt row k = JNull \<or> get rt row k = JUndefined"
    and "\<forall>f. getFormatter rt d = Some f \<longrightarrow>
           f (get rt row k) = Inr JNull \<or> f (get rt row k) = Inr JUndefined"
  shows "propGetter rt k d row = Inr JNull"
proof (cases "getFormatter rt d")
  case None
  with assms(1,2) show ?thesis
    by (auto simp: propGetter_def basicGetter_def checkType_def)
next
  case (Some f)
  with assms(3) have "f (get rt row k) = Inr JNull \<or> f (get rt row k) = Inr JUndefined" by simp
  with Some assms(1) show ?thesis
    by (auto simp: propGetter_def basicGetter_def checkType_def)
qed

lemma propGetter_boolean:
  assumes "getFormatter rt d = None" "getType d = Some CBoolean"
    and "get rt row k \<noteq> JNull" "get rt row k \<noteq> JUndefined"
  shows "propGetter rt k d row = Inr (JBool (truthy (get rt row k)))"
  using assms by (auto simp: propGetter_def basicGetter_def checkType_def)

text \<open>A Date column without formatter never parses: \<open>Date(rowValue)\<close> is text, and
  neither text nor \<open>null\<close> is a date instance, so \<open>checkType\<close> throws on every row.\<close>

lemma propGetter_date_without_formatter:
  assumes "getFormatter rt d = None" "getType d = Some CDate"
  shows "\<exists>msg. propGetter rt k d row = Inl (RAWError msg)"
proof (cases "get rt row k = JNull \<or> get rt row k = JUndefined")
  case True
  with assms show ?thesis
    by (auto simp: propGetter_def basicGetter_def checkType_def)
next
  case False
  with assms show ?thesis
    by (simp add: propGetter_def basicGetter_def checkType_def)
qed

section \<open>Candidates and their keys\<close>

text \<open>\<open>getValueType\<close> has five possible results, and no two of them share a property
  key.\<close>

lemma getValueType_range:
  "getValueType rt v strict \<in>
     {Label CNumber, Label CBoolean, Label CDate, Label CString,
      Plain (Some (Label CDate)) (Some ''YYYY-MM-DD'') None}"
  by (simp add: getValueType_def Let_def)

lemma candidate_range:
  "castTypeToString (getValueType rt v strict) \<in>
     {Label CNumber, Label CBoolean, Label CDate, Label CString,
      Plain (Some (Label CDate)) (Some ''YYYY-MM-DD'') None}"
  using getValueType_range[of rt v strict] by auto

lemma propertyKey_inj_on_candidates:
  assumes "c1 \<in> {Label CNumber, Label CBoolean, Label CDate, Label CString,
      Plain (Some (Label CDate)) (Some ''YYYY-MM-DD'') None}"
    and "c2 \<in> {Label CNumber, Label CBoolean, Label CDate, Label CString,
      Plain (Some (Label CDate)) (Some ''YYYY-MM-DD'') None}"
    and "propertyKey c1 = propertyKey c2"
  shows "c1 = c2"
  using assms by auto

lemma columnCandidates_range:
  "c \<in> set (columnCandidates rt strict rows k) \<Longrightarrow>
   c \<in> {Label CNumber, Label CBoolean, Label CDate, Label CString,
      Plain (Some (Label CDate)) (Some ''YYYY-MM-DD'') None}"
  unfolding columnCandidates_def rowCandidates_def candidateOf_def
  using candidate_range
  by (fastforce split: sum.splits)

lemma count_list_two: "a \<noteq> b \<Longrightarrow> count_list xs a + count_list xs b \<le> length xs"
  by (induction xs) auto

lemma inferTypes_column:
  assumes "\<forall>r\<in>set rows. inferable r"
    and "cs = columnCandidates rt strict rows k" and "cs \<noteq> []"
  shows "\<exists>tm w. inferTypes rt (JArr rows) strict = Inr tm \<and> map_of tm k = Some w \<and>
            mostFrequentType cs = Inr w"
proof -
  from inferTypes_array[OF assms(1), of rt strict] obtain tm where
    tm: "inferTypes rt (JArr rows) strict = Inr tm"
      "\<And>k. map_of tm k =
        (if columnCandidates rt strict rows k = [] then None
         else (case mostFrequentType (columnCandidates rt strict rows k) of
                 Inr w \<Rightarrow> Some w | Inl e \<Rightarrow> None))"
    by blast
  from mostFrequentType_winner[OF assms(3)] obtain w where "mostFrequentType cs = Inr w" by blast
  with tm assms(2,3) show ?thesis by auto
qed

section \<open>Facts for evaluating closed instances\<close>

lemmas get_eval = get_def baseGet_def castPath_def isKey_def reIsPlainProp_def wordChar_def
  inherited_def

lemmas parser_eval = parseDataset_def parseRows_def rowParser_def buildGetters_def
  builtGetters_def setGetter_def lockedOnFunction_def parseCells_def getFormatter_def
  parseCell_def propGetter_def basicGetter_def checkType_def pushError_def assign_def
  sampleRuntime_def Let_def get_eval

lemmas infer_eval = inferTypes_def addCandidate_def getValueType_def countType_def
  mostFrequentType_def countOf_def assign_def inherited_def sampleRuntime_def Let_def

lemmas candidates_eval = columnCandidates_def rowCandidates_def candidateOf_def getValueType_def
  sampleRuntime_def Let_def

section \<open>The documented scenarios\<close>

text \<open>The five example calls of the specification, evaluated in the model with the
  runtime of the examples.\<close>

lemma scenario_majority:
  "inferTypes sampleRuntime
     (JArr [JObj [(''a'', JStr ''3'')], JObj [(''a'', JStr ''4'')], JObj [(''a'', JStr ''x'')]]) False =
   Inr [(''a'', Label CNumber)]"
  by (simp add: infer_eval)

lemma scenario_dates:
  "inferTypes sampleRuntime
     (JArr [JObj [(''d'', JStr ''2020-01-01'')], JObj [(''d'', JStr ''2020-02-02'')]]) False =
   Inr [(''d'', Plain (Some (Label CDate)) (Some ''YYYY-MM-DD'') None)]"
  by (simp add: infer_eval)

lemma scenario_bad_number:
  "parseDataset sampleRuntime (JArr [JObj [(''n'', JStr ''5'')], JObj [(''n'', JStr ''bad'')]])
     (Some [(''n'', Ctor CNumber)]) =
   Inr \<lparr>dataset = [[(''n'', JNum (Finite 5))], [(''n'', JNull)]],
        dataTypes = [(''n'', Ctor CNumber)],
        errors = [(1, [(''n'', RAWError ''invalid type number for value NaN'')])]\<rparr>"
  by (simp add: parser_eval)

lemma scenario_missing_field:
  "parseDataset sampleRuntime (JArr [JObj [(''x'', JNum (Finite 1))]])
     (Some [(''x'', Ctor CNumber), (''y'', Ctor CString)]) =
   Inr \<lparr>dataset = [[(''x'', JNum (Finite 1)), (''y'', JNull)]],
        dataTypes = [(''x'', Ctor CNumber), (''y'', Ctor CString)],
        errors = []\<rparr>"
  by (simp add: parser_eval)

lemma scenario_empty:
  "parseDataset sampleRuntime (JArr []) (Some []) =
   Inr \<lparr>dataset = [], dataTypes = [], errors = []\<rparr>"
  by (simp add: parser_eval)

section \<open>The vote and the row parser on ordinary names\<close>

text \<open>
  The module keeps its tables in objects created as \<open>{}\<close>.  Where no column has a name
  that such an object inherits, the vote of \<open>inferTypes\<close> and the row parser do what
  their loops say for every column.
\<close>

text \<open>The majority vote.  Let \<open>cs\<close> be the candidates of column \<open>k\<close>, not empty, in a
  dataset all of whose rows inference can read, and \<open>keys\<close> the keys under which the code
  tallies them.  Then \<open>inferTypes\<close> returns a type map that gives \<open>k\<close> one of its
  candidates \<open>w\<close>; every candidate with the key of \<open>w\<close> is \<open>w\<close> itself; no key occurs
  more often than the key of \<open>w\<close>; and a key that occurs on more than half of the
  candidates is the key of \<open>w\<close>.\<close>

lemma inferTypes_majority:
  assumes "\<forall>r\<in>set rows. inferable r"
    and "cs = columnCandidates rt strict rows k" and "cs \<noteq> []"
    and "keys = map propertyKey cs"
  shows "\<exists>tm w. inferTypes rt (JArr rows) strict = Inr tm \<and> map_of tm k = Some w \<and>
           w \<in> set cs \<and>
           (\<forall>c\<in>set cs. propertyKey c = propertyKey w \<longrightarrow> c = w) \<and>
           (\<forall>key. count_list keys key \<le> count_list keys (propertyKey w)) \<and>
           (\<forall>key. length cs < 2 * count_list keys key \<longrightarrow> propertyKey w = key)"
proof -
  from inferTypes_column[OF assms(1-3)] obtain tm w where
    tm: "inferTypes rt (JArr rows) strict = Inr tm" "map_of tm k = Some w"
      "mostFrequentType cs = Inr w"
    by blast
  from mostFrequentType_winner[OF assms(3)] tm(3) have
    w: "find (\<lambda>c. propertyKey c = propertyKey w) cs = Some w"
      "\<And>key. count_list keys key \<le> count_list keys (propertyKey w)"
    unfolding assms(4) by auto
  from w(1) have mem: "w \<in> set cs" by (auto dest: find_key)
  have same: "c = w" if "c \<in> set cs" "propertyKey c = propertyKey w" for c
    using that mem columnCandidates_range[of _ rt strict rows k] propertyKey_inj_on_candidates
    unfolding assms(2) by blast
  have maj: "propertyKey w = key" if "length cs < 2 * count_list keys key" for key
  proof (rule ccontr)
    assume "propertyKey w \<noteq> key"
    then have "count_list keys (propertyKey w) + count_list keys key \<le> length keys"
      by (rule count_list_two)
    with w(2)[of key] that show False by (simp add: assms(4))
  qed
  from tm mem same w(2) maj show ?thesis by blast
qed

text \<open>The instance \<open>inferTypes([{a: "3"}, {a: "4"}, {a: "x"}], false)\<close>: two of the three
  candidates are \<open>number\<close>, and \<open>number\<close> is selected.\<close>

lemma inferTypes_majority_instance:
  "\<exists>tm w. inferTypes sampleRuntime
             (JArr [JObj [(''a'', JStr ''3'')], JObj [(''a'', JStr ''4'')], JObj [(''a'', JStr ''x'')]])
             False = Inr tm \<and>
          map_of tm ''a'' = Some w \<and> propertyKey w = ''number''"
proof -
  let ?rows = "[JObj [(''a'', JStr ''3'')], JObj [(''a'', JStr ''4'')], JObj [(''a'', JStr ''x'')]]"
  let ?cs = "[Label CNumber, Label CNumber, Label CString]"
  have rows: "\<forall>r\<in>set ?rows. inferable r" by (simp add: inferable_def inherited_def)
  have cs: "?cs = columnCandidates sampleRuntime False ?rows ''a''"
    by (simp add: candidates_eval)
  have ne: "?cs \<noteq> []" by simp
  have keys: "[''number'', ''number'', ''string''] = map propertyKey ?cs" by simp
  from inferTypes_majority[OF rows cs ne keys] obtain tm w where
    tm: "inferTypes sampleRuntime (JArr ?rows) False = Inr tm" "map_of tm ''a'' = Some w"
    and maj: "\<And>key. length ?cs < 2 * count_list [''number'', ''number'', ''string''] key \<Longrightarrow>
                propertyKey w = key"
    by blast
  from maj[of "''number''"] have "propertyKey w = ''number''" by simp
  with tm show ?thesis by blast
qed

text \<open>The tie-break.  With \<open>cs\<close> and \<open>keys\<close> as above, listed in the order of the rows,
  \<open>inferTypes\<close> gives column \<open>k\<close> the first candidate that has the winning key; no key
  occurs more often than the winning key; and every other key that occurs as often is
  first met later in \<open>keys\<close> than the winning key.  The result does not depend on the
  clock, the one thing that differs between a call and its repetition.\<close>

lemma inferTypes_tie_break:
  assumes "\<forall>r\<in>set rows. inferable r"
    and "cs = columnCandidates rt strict rows k" and "cs \<noteq> []"
    and "keys = map propertyKey cs"
  shows "(\<exists>tm w. inferTypes rt (JArr rows) strict = Inr tm \<and> map_of tm k = Some w \<and>
           find (\<lambda>c. propertyKey c = propertyKey w) cs = Some w \<and>
           (\<forall>key. count_list keys key \<le> count_list keys (propertyKey w)) \<and>
           (\<forall>key. key \<noteq> propertyKey w \<and>
                   count_list keys key = count_list keys (propertyKey w) \<longrightarrow>
                   firstIndex keys (propertyKey w) < firstIndex keys key)) \<and>
         (\<forall>clock. inferTypes (rt\<lparr>Date_call := clock\<rparr>) (JArr rows) strict =
                   inferTypes rt (JArr rows) strict)"
proof -
  from inferTypes_column[OF assms(1-3)] obtain tm w where
    tm: "inferTypes rt (JArr rows) strict = Inr tm" "map_of tm k = Some w"
      "mostFrequentType cs = Inr w"
    by blast
  from mostFrequentType_winner[OF assms(3)] tm(3) have
    "find (\<lambda>c. propertyKey c = propertyKey w) cs = Some w \<and>
     (\<forall>key. count_list keys key \<le> count_list keys (propertyKey w)) \<and>
     (\<forall>key. key \<noteq> propertyKey w \<and>
                   count_list keys key = count_list keys (propertyKey w) \<longrightarrow>
                   firstIndex keys (propertyKey w) < firstIndex keys key)"
    unfolding assms(4) by auto
  with tm show ?thesis by (simp add: inferTypes_clock)
qed

text \<open>The instance \<open>inferTypes([{a: "x"}, {a: "4"}], false)\<close>: \<open>string\<close> and \<open>number\<close>
  have one vote each, and \<open>string\<close>, met first, is selected.\<close>

lemma inferTypes_tie_break_instance:
  "\<exists>tm w. inferTypes sampleRuntime
             (JArr [JObj [(''a'', JStr ''x'')], JObj [(''a'', JStr ''4'')]]) False = Inr tm \<and>
          map_of tm ''a'' = Some w \<and> propertyKey w \<noteq> ''number'' \<and>
          tm = [(''a'', Label CString)]"
proof -
  let ?rows = "[JObj [(''a'', JStr ''x'')], JObj [(''a'', JStr ''4'')]]"
  let ?cs = "[Label CString, Label CNumber]"
  let ?keys = "[''string'', ''number'']"
  have rows: "\<forall>r\<in>set ?rows. inferable r" by (simp add: inferable_def inherited_def)
  have cs: "?cs = columnCandidates sampleRuntime False ?rows ''a''"
    by (simp add: candidates_eval)
  have ne: "?cs \<noteq> []" by simp
  have keys: "?keys = map propertyKey ?cs" by simp
  have e: "inferTypes sampleRuntime (JArr ?rows) False = Inr [(''a'', Label CString)]"
    by (simp add: infer_eval)
  from inferTypes_tie_break[OF rows cs ne keys] obtain tm w where
    tm: "inferTypes sampleRuntime (JArr ?rows) False = Inr tm" "map_of tm ''a'' = Some w"
    and le: "\<And>key. count_list ?keys key \<le> count_list ?keys (propertyKey w)"
    and tie: "\<And>key. key \<noteq> propertyKey w \<and> count_list ?keys key = count_list ?keys (propertyKey w) \<Longrightarrow>
                firstIndex ?keys (propertyKey w) < firstIndex ?keys key"
    by blast
  have "propertyKey w \<noteq> ''number''"
  proof
    assume n: "propertyKey w = ''number''"
    with tie[of "''string''"] show False by (simp add: firstIndex_def)
  qed
  with tm e show ?thesis by auto
qed

text \<open>The keys of a parsed row.  When \<open>parseDataset\<close> returns on an array, every parsed
  row has exactly the keys of the resolved type map other than \<open>__proto__\<close>, each once,
  whatever keys the raw row has; the value under a key is what the column's getter
  returns on the raw row, and \<open>null\<close> when the getter throws.\<close>

lemma parsed_row_keys:
  assumes "parseDataset rt (JArr rows) types = Inr res" and "i < length rows"
  shows "set (map fst (dataset res ! i)) = set (map fst (dataTypes res)) - {''__proto__''} \<and>
         distinct (map fst (dataset res ! i)) \<and>
         (\<forall>k d. k \<noteq> ''__proto__'' \<and> map_of (dataTypes res) k = Some d \<longrightarrow>
            map_of (dataset res ! i) k =
              Some (case propGetter rt k d (rows ! i) of Inr v \<Rightarrow> v | Inl e \<Rightarrow> JNull))"
proof -
  have row: "dataset res ! i = rowOut rt (dataTypes res) (rows ! i)"
    using assms by (simp add: parseDataset_array(1))
  from parseDataset_builds[OF assms(1)] obtain table where
    tb: "buildGetters rt (dataTypes res) = Inr table" ..
  have "cellValue x = (case x of Inr v \<Rightarrow> v | Inl e \<Rightarrow> JNull)" for x
    by (cases x) simp_all
  then show ?thesis
    unfolding row using rowOut_keys[OF tb, of "rows ! i"]
    by (simp add: rowOut_distinct rowOut_map_of[OF tb])
qed

text \<open>An instance: the raw row has \<open>x\<close> and \<open>z\<close>, the type map \<open>x\<close> and \<open>y\<close>; the parsed
  row has \<open>x\<close> and \<open>y\<close>.\<close>

lemma parsed_row_keys_instance:
  "\<exists>res. parseDataset sampleRuntime (JArr [JObj [(''x'', JNum (Finite 1)), (''z'', JStr ''extra'')]])
            (Some [(''x'', Ctor CNumber), (''y'', Ctor CString)]) = Inr res \<and>
         set (map fst (dataset res ! 0)) = {''x'', ''y''} \<and>
         distinct (map fst (dataset res ! 0)) \<and>
         map_of (dataset res ! 0) ''x'' = Some (JNum (Finite 1))"
proof -
  let ?rows = "[JObj [(''x'', JNum (Finite 1)), (''z'', JStr ''extra'')]]"
  let ?tys = "[(''x'', Ctor CNumber), (''y'', Ctor CString)]"
  obtain res where res: "parseDataset sampleRuntime (JArr ?rows) (Some ?tys) = Inr res"
    by (simp add: parseDataset_supplied)
  have tys: "dataTypes res = ?tys" using res by (rule parseDataset_dataTypes)
  have g: "propGetter sampleRuntime ''x'' (Ctor CNumber) (?rows ! 0) = Inr (JNum (Finite 1))"
    by (simp add: parser_eval)
  from parsed_row_keys[OF res, of 0]
  have "set (map fst (dataset res ! 0)) = {''x'', ''y''} \<and>
        distinct (map fst (dataset res ! 0)) \<and>
        map_of (dataset res ! 0) ''x'' = Some (JNum (Finite 1))"
    unfolding tys using g by auto
  with res show ?thesis by blast
qed

text \<open>Boolean columns.  For a column other than \<open>__proto__\<close> whose type resolves to
  Boolean and that has no formatter, a raw value \<open>v\<close> that is neither \<open>null\<close> nor
  \<open>undefined\<close> parses to the boolean \<open>Boolean(v)\<close>, and no entry of the error list for
  that row mentions the column; in particular every non-empty string parses to
  \<open>true\<close>.\<close>

lemma boolean_by_truthiness:
  assumes "parseDataset rt (JArr rows) types = Inr res" and "i < length rows"
    and "map_of (dataTypes res) k = Some d" and "k \<noteq> ''__proto__''"
    and "getType d = Some CBoolean" and "getFormatter rt d = None"
    and "get rt (rows ! i) k = v" and "v \<noteq> JNull" and "v \<noteq> JUndefined"
  shows "map_of (dataset res ! i) k = Some (JBool (truthy v)) \<and>
         (\<forall>err. (i, err) \<in> set (errors res) \<longrightarrow> map_of err k = None) \<and>
         (\<forall>s. v = JStr s \<and> s \<noteq> [] \<longrightarrow> map_of (dataset res ! i) k = Some (JBool True))"
proof -
  have g: "propGetter rt k d (rows ! i) = Inr (JBool (truthy v))"
    using propGetter_boolean[of rt d "rows ! i" k] assms(5-9) by simp
  from parseDataset_builds[OF assms(1)] obtain table where
    tb: "buildGetters rt (dataTypes res) = Inr table" ..
  have cell: "map_of (dataset res ! i) k = Some (JBool (truthy v))"
    using assms(2,3,4) g by (simp add: parseDataset_array(1)[OF assms(1)] rowOut_map_of[OF tb])
  moreover have "map_of (rowError rt (dataTypes res) (rows ! i)) k = None"
    using assms(3) g by (simp add: rowError_map_of[OF tb])
  ultimately show ?thesis by (auto simp: errors_entry[OF assms(1)])
qed

text \<open>The instance \<open>parseDataset([{b: "false"}], {b: Boolean})\<close>: the text \<open>false\<close>
  parses to \<open>true\<close>.\<close>

lemma boolean_by_truthiness_instance:
  "\<exists>res. parseDataset sampleRuntime (JArr [JObj [(''b'', JStr ''false'')]])
            (Some [(''b'', Ctor CBoolean)]) = Inr res \<and>
         map_of (dataset res ! 0) ''b'' = Some (JBool True) \<and> errors res = []"
proof -
  let ?rows = "[JObj [(''b'', JStr ''false'')]]"
  let ?tys = "[(''b'', Ctor CBoolean)]"
  have e: "parseDataset sampleRuntime (JArr ?rows) (Some ?tys) =
     Inr \<lparr>dataset = [[(''b'', JBool True)]], dataTypes = ?tys, errors = []\<rparr>"
    by (simp add: parser_eval)
  have g: "get sampleRuntime (?rows ! 0) ''b'' = JStr ''false''"
    by (simp add: get_eval)
  have "map_of (dataset \<lparr>dataset = [[(''b'', JBool True)]], dataTypes = ?tys, errors = []\<rparr> ! 0) ''b'' = Some (JBool True)"
    using boolean_by_truthiness[OF e, of 0 "''b''" "Ctor CBoolean" "JStr ''false''"] g
    by (simp add: getFormatter_def)
  with e show ?thesis by simp
qed

section \<open>The claims\<close>

subsection \<open>C1\<close>

text \<open>
  \<^bold>\<open>C1\<close> (as the code has it).  The claim says that a cell whose column the record
  omits, or whose raw value is \<open>null\<close> or \<open>undefined\<close>, parses to \<open>null\<close> with no error
  recorded, whatever the column's descriptor.  In the code the column's formatter (a
  \<open>decode\<close> function, or the dayjs parse of a Date with a \<open>dateFormat\<close>) runs before
  \<open>basicGetter\<close> looks for \<open>null\<close>; \<open>checkType\<close> refuses every value of a Date column
  that is not a valid date instance; a record that omits a column named like a property
  of \<open>Object.prototype\<close> still yields that inherited property; and a column \<open>__proto__\<close>
  gets no cell at all.  What holds: for a column other than \<open>__proto__\<close> whose type is
  not Date, when the record omits the column (it has no property, own or inherited, at
  the first step of the column's path) or the raw value at the path is \<open>null\<close> or
  \<open>undefined\<close>, and the column has no formatter or its formatter returns \<open>null\<close> or
  \<open>undefined\<close> on that raw value, the cell is \<open>null\<close> and no entry of the error list
  for that row mentions the column.
\<close>

theorem absent_value_is_null:
  assumes "parseDataset rt (JArr rows) types = Inr res" and "i < length rows"
    and "map_of (dataTypes res) k = Some d" and "k \<noteq> ''__proto__''"
    and "getType d \<noteq> Some CDate"
    and "omitsColumn rt (rows ! i) k \<or>
         get rt (rows ! i) k = JNull \<or> get rt (rows ! i) k = JUndefined"
    and "\<forall>f. getFormatter rt d = Some f \<longrightarrow>
           f (get rt (rows ! i) k) = Inr JNull \<or> f (get rt (rows ! i) k) = Inr JUndefined"
  shows "map_of (dataset res ! i) k = Some JNull \<and>
         (\<forall>err. (i, err) \<in> set (errors res) \<longrightarrow> map_of err k = None)"
proof -
  from assms(6) have raw: "get rt (rows ! i) k = JNull \<or> get rt (rows ! i) k = JUndefined"
    by (auto dest: get_omitted)
  have g: "propGetter rt k d (rows ! i) = Inr JNull"
    using assms(5) raw assms(7) by (rule propGetter_absent)
  from parseDataset_builds[OF assms(1)] obtain table where
    tb: "buildGetters rt (dataTypes res) = Inr table" ..
  have "map_of (dataset res ! i) k = Some JNull"
    using assms(2,3,4) g by (simp add: parseDataset_array(1)[OF assms(1)] rowOut_map_of[OF tb])
  moreover have "map_of (rowError rt (dataTypes res) (rows ! i)) k = None"
    using assms(3) g by (simp add: rowError_map_of[OF tb])
  ultimately show ?thesis by (simp add: errors_entry[OF assms(1)])
qed

text \<open>The instance \<open>parseDataset([{x: 1}], {x: Number, y: String, z: {type: Number,
  decode: (v) => v}})\<close>: the row has neither \<open>y\<close> nor \<open>z\<close>; both cells are \<open>null\<close> and the
  error list is empty.\<close>

theorem absent_value_is_null_witness:
  "\<exists>res. parseDataset sampleRuntime (JArr [JObj [(''x'', JNum (Finite 1))]])
            (Some [(''x'', Ctor CNumber), (''y'', Ctor CString),
                   (''z'', Plain (Some (Ctor CNumber)) None (Some Inr))]) = Inr res \<and>
         map_of (dataset res ! 0) ''y'' = Some JNull \<and>
         map_of (dataset res ! 0) ''z'' = Some JNull \<and> errors res = []"
proof -
  let ?rows = "[JObj [(''x'', JNum (Finite 1))]]"
  let ?tys = "[(''x'', Ctor CNumber), (''y'', Ctor CString),
               (''z'', Plain (Some (Ctor CNumber)) None (Some Inr))]"
  have e: "parseDataset sampleRuntime (JArr ?rows) (Some ?tys) =
      Inr \<lparr>dataset = [[(''x'', JNum (Finite 1)), (''y'', JNull), (''z'', JNull)]],
           dataTypes = ?tys, errors = []\<rparr>"
    by (simp add: parser_eval)
  have oy: "omitsColumn sampleRuntime (?rows ! 0) ''y''"
    by (simp add: omitsColumn_def get_eval)
  have gz: "get sampleRuntime (?rows ! 0) ''z'' = JUndefined"
    by (simp add: get_eval)
  have y: "map_of (dataset \<lparr>dataset = [[(''x'', JNum (Finite 1)), (''y'', JNull), (''z'', JNull)]],
           dataTypes = ?tys, errors = []\<rparr> ! 0) ''y'' = Some JNull"
    using absent_value_is_null[OF e, of 0 "''y''" "Ctor CString"] oy
    by (simp add: getFormatter_def)
  have z: "map_of (dataset \<lparr>dataset = [[(''x'', JNum (Finite 1)), (''y'', JNull), (''z'', JNull)]],
           dataTypes = ?tys, errors = []\<rparr> ! 0) ''z'' = Some JNull"
    using absent_value_is_null[OF e, of 0 "''z''" "Plain (Some (Ctor CNumber)) None (Some Inr)"] gz
    by (simp add: getFormatter_def)
  from e y z show ?thesis by simp
qed

text \<open>The claim fails on the record \<open>{"__proto__": null}\<close> (as \<open>JSON.parse\<close> builds it)
  with the type map \<open>{d: Date, t: {type: Date, dateFormat: "YYYY-MM-DD"}, u: {decode},
  toString: String, __proto__: String}\<close>, where \<open>decode\<close> accepts text only.  The record
  omits the first four columns and holds \<open>null\<close> for the fifth.  The cells \<open>d\<close>, \<open>t\<close> and
  \<open>u\<close> are recorded as errors: the two Date columns by \<open>checkType\<close> (on \<open>null\<close>, and on
  the \<open>Invalid Date\<close> that the formatter makes of \<open>undefined\<close>), the custom column by the
  \<open>TypeError\<close> of its decoder.  The cell \<open>toString\<close> is the text of the inherited
  function, and there is no cell \<open>__proto__\<close>.\<close>

theorem absent_value_counterexample:
  "parseDataset sampleRuntime (JArr [JObj [(''__proto__'', JNull)]])
     (Some [(''d'', Ctor CDate),
            (''t'', Plain (Some (Ctor CDate)) (Some ''YYYY-MM-DD'') None),
            (''u'', Plain None None (Some textDecode)),
            (''toString'', Ctor CString),
            (''__proto__'', Ctor CString)]) =
   Inr \<lparr>dataset = [[(''d'', JNull), (''t'', JNull), (''u'', JNull),
                    (''toString'', JStr ''function toString() { [native code] }'')]],
        dataTypes = [(''d'', Ctor CDate),
                     (''t'', Plain (Some (Ctor CDate)) (Some ''YYYY-MM-DD'') None),
                     (''u'', Plain None None (Some textDecode)),
                     (''toString'', Ctor CString),
                     (''__proto__'', Ctor CString)],
        errors = [(0, [(''d'', RAWError ''invalid type date for value null''),
                       (''t'', RAWError ''invalid type date for value Invalid Date''),
                       (''u'', TypeError)])]\<rparr>"
  by (simp add: parser_eval)

subsection \<open>C2\<close>

text \<open>
  \<^bold>\<open>C2\<close> (as the code has it).  The claim says that \<open>parseDataset\<close> never raises, also
  on data that is not a sequence.  \<open>parseRows\<close> calls \<open>data.map\<close>, which exists only on an
  array.  With the type map omitted \<open>inferTypes\<close> calls \<open>Object.keys\<close> on every row,
  which throws on \<open>null\<close> and \<open>undefined\<close>, and calls \<open>.push\<close> on what \<open>candidateTypes\<close>
  holds under each key of the row, which is not an array under a key that every object
  inherits.  With a type map that has the key \<open>__proto__\<close>, \<open>rowParser\<close> makes a function
  the prototype of its getter table and throws on a later key that a function locks.
  What holds: on an array, with a type map supplied whose getter table builds (or with
  none, when inference can read every row), \<open>parseDataset\<close> returns a result, and every
  getter that throws on a cell leaves that cell \<open>null\<close> and its exception in the entry of
  the error list for that row (a column \<open>__proto__\<close> has no getter).
\<close>

theorem parseDataset_returns:
  assumes "case types of None \<Rightarrow> \<forall>r\<in>set rows. inferable r | Some t \<Rightarrow> tableBuilds t"
  shows "\<exists>res. parseDataset rt (JArr rows) types = Inr res \<and>
           (\<forall>i k d e. i < length rows \<and> k \<noteq> ''__proto__'' \<and>
                       map_of (dataTypes res) k = Some d \<and>
                       propGetter rt k d (rows ! i) = Inl e \<longrightarrow>
              map_of (dataset res ! i) k = Some JNull \<and>
              (\<exists>err. (i, err) \<in> set (errors res) \<and> map_of err k = Some e))"
proof -
  have "\<exists>tys table.
          (case types of Some t \<Rightarrow> Inr t | None \<Rightarrow> inferTypes rt (JArr rows) False) = Inr tys \<and>
          buildGetters rt tys = Inr table"
  proof (cases types)
    case None
    with assms have rows: "\<forall>r\<in>set rows. inferable r" by simp
    from inferTypes_array[OF rows, of rt False] obtain tm where
      tm: "inferTypes rt (JArr rows) False = Inr tm"
        "\<And>k. map_of tm k =
          (if columnCandidates rt False rows k = [] then None
           else (case mostFrequentType (columnCandidates rt False rows k) of
                   Inr w \<Rightarrow> Some w | Inl e \<Rightarrow> None))"
      by blast
    have "columnCandidates rt False rows ''__proto__'' = []"
      using rows by (rule columnCandidates_inherited) simp
    then have "map_of tm ''__proto__'' = None" by (simp add: tm(2))
    then have "''__proto__'' \<notin> fst ` set tm" by (simp add: map_of_eq_None_iff)
    from buildGetters_no_proto[OF this, of rt] tm(1) None show ?thesis by auto
  next
    case (Some t)
    with assms have "tableBuilds t" by simp
    from buildGetters_builds[OF this, of rt] Some show ?thesis by auto
  qed
  then obtain tys table where
    tys: "(case types of Some t \<Rightarrow> Inr t | None \<Rightarrow> inferTypes rt (JArr rows) False) = Inr tys"
    and tb0: "buildGetters rt tys = Inr table"
    by blast
  then obtain res where res: "parseDataset rt (JArr rows) types = Inr res"
    by (simp add: parseDataset_def parseRows_array[OF tb0])
  from parseDataset_builds[OF res] obtain table' where
    tb: "buildGetters rt (dataTypes res) = Inr table'" ..
  have "map_of (dataset res ! i) k = Some JNull \<and>
        (\<exists>err. (i, err) \<in> set (errors res) \<and> map_of err k = Some e)"
    if "i < length rows" "k \<noteq> ''__proto__''" "map_of (dataTypes res) k = Some d"
       "propGetter rt k d (rows ! i) = Inl e"
    for i k d e
  proof -
    have "map_of (rowError rt (dataTypes res) (rows ! i)) k = Some e"
      using that by (simp add: rowError_map_of[OF tb])
    moreover from this have "rowError rt (dataTypes res) (rows ! i) \<noteq> []" by auto
    moreover have "map_of (dataset res ! i) k = Some JNull"
      using that by (simp add: parseDataset_array(1)[OF res] rowOut_map_of[OF tb])
    ultimately show ?thesis using that(1) by (auto simp: errors_entry[OF res])
  qed
  with res show ?thesis by blast
qed

text \<open>The instance \<open>parseDataset([{n: "5"}, {n: "bad"}], {n: Number})\<close>: the call returns;
  the second cell is \<open>null\<close> and its error is in the entry of row 1.\<close>

theorem parseDataset_returns_witness:
  "\<exists>res. parseDataset sampleRuntime (JArr [JObj [(''n'', JStr ''5'')], JObj [(''n'', JStr ''bad'')]])
            (Some [(''n'', Ctor CNumber)]) = Inr res \<and>
         map_of (dataset res ! 1) ''n'' = Some JNull \<and>
         (\<exists>err. (1, err) \<in> set (errors res) \<and>
                map_of err ''n'' = Some (RAWError ''invalid type number for value NaN''))"
proof -
  let ?rows = "[JObj [(''n'', JStr ''5'')], JObj [(''n'', JStr ''bad'')]]"
  let ?tys = "[(''n'', Ctor CNumber)]"
  have h: "case Some ?tys of None \<Rightarrow> \<forall>r\<in>set ?rows. inferable r | Some t \<Rightarrow> tableBuilds t"
    by (simp add: tableBuilds_def)
  from parseDataset_returns[OF h, of sampleRuntime] obtain res where
    res: "parseDataset sampleRuntime (JArr ?rows) (Some ?tys) = Inr res"
    and cells: "\<And>i k d e. i < length ?rows \<and> k \<noteq> ''__proto__'' \<and>
                       map_of (dataTypes res) k = Some d \<and>
                       propGetter sampleRuntime k d (?rows ! i) = Inl e \<Longrightarrow>
              map_of (dataset res ! i) k = Some JNull \<and>
              (\<exists>err. (i, err) \<in> set (errors res) \<and> map_of err k = Some e)"
    by blast
  have tys: "dataTypes res = ?tys" using res by (rule parseDataset_dataTypes)
  have g: "propGetter sampleRuntime ''n'' (Ctor CNumber) (?rows ! 1) =
           Inl (RAWError ''invalid type number for value NaN'')"
    by (simp add: parser_eval)
  from cells[of 1 "''n''" "Ctor CNumber" "RAWError ''invalid type number for value NaN''"] tys g
  have "map_of (dataset res ! 1) ''n'' = Some JNull \<and>
        (\<exists>err. (1, err) \<in> set (errors res) \<and>
               map_of err ''n'' = Some (RAWError ''invalid type number for value NaN''))"
    by simp
  with res show ?thesis by blast
qed

text \<open>The claim fails on \<open>parseDataset({}, {})\<close>, where \<open>data.map\<close> is not a function; on
  \<open>parseDataset([null])\<close>, where inference throws on the row; on
  \<open>parseDataset([{constructor: "x"}])\<close>, where inference finds the inherited
  \<open>constructor\<close> in place of a list of candidates; and on the row \<open>{name: "x"}\<close> with a
  type map whose own keys are \<open>__proto__\<close> and \<open>name\<close>, where the getter of \<open>name\<close>
  cannot be stored.\<close>

theorem parseDataset_raises_counterexample:
  "parseDataset sampleRuntime (JObj []) (Some []) = Inl TypeError \<and>
   parseDataset sampleRuntime (JArr [JNull]) None = Inl TypeError \<and>
   parseDataset sampleRuntime (JArr [JObj [(''constructor'', JStr ''x'')]]) None = Inl TypeError \<and>
   parseDataset sampleRuntime (JArr [JObj [(''name'', JStr ''x'')]])
     (Some [(''__proto__'', Ctor CString), (''name'', Ctor CString)]) = Inl TypeError"
  by (simp add: parser_eval inferTypes_def addCandidate_def getValueType_def)

subsection \<open>C3\<close>

text \<open>
  \<^bold>\<open>C3\<close>.  The claim says that for every column a key that occurs on a strict
  majority of the column's candidates is selected.  \<open>inferTypes\<close> runs that vote, but it
  keeps the candidates in an object created as \<open>{}\<close> and takes \<open>candidateTypes[key] ===
  undefined\<close> for the sign of a new column: under a key that every object inherits
  (\<open>constructor\<close>, \<open>toString\<close>, \<open>valueOf\<close>, ...) the read yields the inherited function,
  no list is created, and \<open>.push\<close> throws.  On \<open>inferTypes([{a: "3", valueOf: "x"},
  {a: "4"}], false)\<close> both candidates of column \<open>a\<close> are \<open>number\<close>, and the call throws
  a \<open>TypeError\<close> instead of selecting \<open>number\<close>; likewise for the one column of
  \<open>[{constructor: "x"}]\<close>.  On datasets without such keys the claim holds
  (\<open>inferTypes_majority\<close>).
\<close>

theorem inferTypes_majority_failure:
  "columnCandidates sampleRuntime False
     [JObj [(''a'', JStr ''3''), (''valueOf'', JStr ''x'')], JObj [(''a'', JStr ''4'')]] ''a'' =
     [Label CNumber, Label CNumber] \<and>
   inferTypes sampleRuntime
     (JArr [JObj [(''a'', JStr ''3''), (''valueOf'', JStr ''x'')], JObj [(''a'', JStr ''4'')]])
     False = Inl TypeError \<and>
   columnCandidates sampleRuntime False [JObj [(''constructor'', JStr ''x'')]] ''constructor'' =
     [Label CString] \<and>
   inferTypes sampleRuntime (JArr [JObj [(''constructor'', JStr ''x'')]]) False = Inl TypeError"
  by (simp add: candidates_eval infer_eval)

subsection \<open>C4\<close>

text \<open>
  \<^bold>\<open>C4\<close> (as the code has it).  The claim says that a configured-date candidate is
  tallied under a composite key made of the date tag and the format, so that different
  formats are counted apart, and that the winning descriptor is rebuilt from its key.
  \<open>castTypeToString\<close> turns a constructor into its lower-case name and leaves a label and
  the descriptor object as they are; used as a property key, a label is its own name and
  every descriptor object is the one text \<open>[object Object]\<close>, whatever its format.  What
  holds: the candidates that \<open>getValueType\<close> can produce are told apart by their keys
  (it only ever builds the one format \<open>YYYY-MM-DD\<close>), and the descriptor selected for a
  column is the value stored with the winning key, which is the first candidate seen
  with that key.
\<close>

theorem candidate_keys:
  "castTypeToString (Ctor c) = Label c \<and>
   castTypeToString (Label c) = Label c \<and>
   castTypeToString (Plain t fmt dec) = Plain t fmt dec \<and>
   propertyKey (Label c) = labelName c \<and>
   propertyKey (Plain t fmt dec) = ''[object Object]'' \<and>
   (propertyKey (castTypeToString (getValueType rt v1 s1)) =
      propertyKey (castTypeToString (getValueType rt v2 s2)) \<longrightarrow>
    castTypeToString (getValueType rt v1 s1) = castTypeToString (getValueType rt v2 s2)) \<and>
   (cs \<noteq> [] \<longrightarrow>
    (\<exists>w. mostFrequentType cs = Inr w \<and>
         find (\<lambda>c. propertyKey c = propertyKey w) cs = Some w))"
proof -
  have inj: "propertyKey (castTypeToString (getValueType rt v1 s1)) =
      propertyKey (castTypeToString (getValueType rt v2 s2)) \<longrightarrow>
    castTypeToString (getValueType rt v1 s1) = castTypeToString (getValueType rt v2 s2)"
    using propertyKey_inj_on_candidates[OF candidate_range candidate_range] by blast
  have win: "cs \<noteq> [] \<longrightarrow>
    (\<exists>w. mostFrequentType cs = Inr w \<and>
         find (\<lambda>c. propertyKey c = propertyKey w) cs = Some w)"
    using mostFrequentType_winner[of cs] by blast
  from inj win show ?thesis by simp
qed

text \<open>An instance: the candidate of the text \<open>2020-01-01\<close> has the key \<open>[object
  Object]\<close> and is the same descriptor as the candidate of \<open>2020-02-02\<close>; among
  \<open>string, number, number\<close> the vote returns the stored \<open>number\<close>.\<close>

theorem candidate_keys_witness:
  "propertyKey (castTypeToString (getValueType sampleRuntime (JStr ''2020-01-01'') False)) =
     ''[object Object]'' \<and>
   castTypeToString (getValueType sampleRuntime (JStr ''2020-01-01'') False) =
     castTypeToString (getValueType sampleRuntime (JStr ''2020-02-02'') False) \<and>
   mostFrequentType [Label CString, Label CNumber, Label CNumber] = Inr (Label CNumber)"
proof -
  let ?c1 = "castTypeToString (getValueType sampleRuntime (JStr ''2020-01-01'') False)"
  let ?c2 = "castTypeToString (getValueType sampleRuntime (JStr ''2020-02-02'') False)"
  let ?cs = "[Label CString, Label CNumber, Label CNumber]"
  note ck = candidate_keys[of _ _ _ _ sampleRuntime "JStr ''2020-01-01''" False "JStr ''2020-02-02''" False ?cs]
  have k1: "propertyKey ?c1 = ''[object Object]''" by (simp add: infer_eval)
  have k2: "propertyKey ?c2 = ''[object Object]''" by (simp add: infer_eval)
  from ck k1 k2 have same: "?c1 = ?c2" by simp
  have "mostFrequentType ?cs = Inr (Label CNumber)" by (simp add: infer_eval)
  with k1 same show ?thesis by blast
qed

text \<open>The claim fails on the configured-date candidate: the text \<open>2020-01-01\<close> yields
  the descriptor object, whose key is \<open>[object Object]\<close> and holds neither tag nor
  format; a descriptor with another format has the same key, so that one vote for
  \<open>YYYY-MM-DD\<close> followed by two for \<open>DD/MM/YYYY\<close> elects \<open>YYYY-MM-DD\<close>.\<close>

theorem candidate_keys_counterexample:
  "castTypeToString (getValueType sampleRuntime (JStr ''2020-01-01'') False) =
     Plain (Some (Label CDate)) (Some ''YYYY-MM-DD'') None \<and>
   propertyKey (Plain (Some (Label CDate)) (Some ''YYYY-MM-DD'') None) = ''[object Object]'' \<and>
   propertyKey (Plain (Some (Label CDate)) (Some ''DD/MM/YYYY'') None) = ''[object Object]'' \<and>
   mostFrequentType
     [Plain (Some (Label CDate)) (Some ''YYYY-MM-DD'') None,
      Plain (Some (Label CDate)) (Some ''DD/MM/YYYY'') None,
      Plain (Some (Label CDate)) (Some ''DD/MM/YYYY'') None] =
     Inr (Plain (Some (Label CDate)) (Some ''YYYY-MM-DD'') None)"
  by (simp add: infer_eval)

subsection \<open>C5\<close>

text \<open>
  \<^bold>\<open>C5\<close>.  The claim says that for every column a tie between keys of maximal count
  goes to the key met first, and that a repeated call returns the same result.  The vote
  of \<open>inferTypes\<close> breaks ties that way, but the loop that collects the candidates
  throws on a record with an own key that every object inherits.  On
  \<open>inferTypes([{a: "x", toString: "1"}, {a: "4"}], false)\<close> the candidates of column
  \<open>a\<close> are \<open>string\<close> and \<open>number\<close>, one vote each, and the call throws a \<open>TypeError\<close>
  on the key \<open>toString\<close> of the first record instead of selecting \<open>string\<close>.  On
  datasets without such keys the claim holds (\<open>inferTypes_tie_break\<close>).
\<close>

theorem inferTypes_tie_break_failure:
  "columnCandidates sampleRuntime False
     [JObj [(''a'', JStr ''x''), (''toString'', JStr ''1'')], JObj [(''a'', JStr ''4'')]] ''a'' =
     [Label CString, Label CNumber] \<and>
   inferTypes sampleRuntime
     (JArr [JObj [(''a'', JStr ''x''), (''toString'', JStr ''1'')], JObj [(''a'', JStr ''4'')]])
     False = Inl TypeError"
  by (simp add: candidates_eval infer_eval)

subsection \<open>C6\<close>

text \<open>
  \<^bold>\<open>C6\<close>.  When \<open>parseDataset\<close> returns on an array, the dataset has as many rows as
  the array, and its row \<open>i\<close> is what the row parser built for the resolved type map
  returns on the raw row \<open>i\<close> (whatever callback and outer state the parser is given).
\<close>

theorem parseDataset_length_and_order:
  assumes "parseDataset rt (JArr rows) types = Inr res"
  shows "length (dataset res) = length rows \<and>
         (\<forall>i<length rows.
            dataset res ! i = fst (rowParser rt (dataTypes res) onError (rows ! i) i s))"
  by (simp add: parseDataset_array(1)[OF assms] rowParser_out)

text \<open>The instance \<open>parseDataset([{n: "5"}, {n: "bad"}], {n: Number})\<close>: two rows, in
  order.\<close>

theorem parseDataset_length_and_order_witness:
  "\<exists>res. parseDataset sampleRuntime (JArr [JObj [(''n'', JStr ''5'')], JObj [(''n'', JStr ''bad'')]])
            (Some [(''n'', Ctor CNumber)]) = Inr res \<and>
         length (dataset res) = 2 \<and>
         dataset res ! 0 = [(''n'', JNum (Finite 5))] \<and>
         dataset res ! 1 = [(''n'', JNull)]"
proof -
  let ?rows = "[JObj [(''n'', JStr ''5'')], JObj [(''n'', JStr ''bad'')]]"
  let ?tys = "[(''n'', Ctor CNumber)]"
  obtain res where res: "parseDataset sampleRuntime (JArr ?rows) (Some ?tys) = Inr res"
    by (simp add: parseDataset_supplied)
  have tys: "dataTypes res = ?tys" using res by (rule parseDataset_dataTypes)
  have r0: "fst (rowParser sampleRuntime ?tys (None :: (exn obj \<Rightarrow> nat \<Rightarrow> unit \<Rightarrow> unit) option) (?rows ! 0) 0 ()) = [(''n'', JNum (Finite 5))]"
    by (simp add: parser_eval)
  have r1: "fst (rowParser sampleRuntime ?tys (None :: (exn obj \<Rightarrow> nat \<Rightarrow> unit \<Rightarrow> unit) option) (?rows ! 1) 1 ()) = [(''n'', JNull)]"
    by (simp add: parser_eval)
  from parseDataset_length_and_order[OF res, of "None :: (exn obj \<Rightarrow> nat \<Rightarrow> unit \<Rightarrow> unit) option" "()"]
  have "length (dataset res) = 2 \<and> dataset res ! 0 = [(''n'', JNum (Finite 5))] \<and>
        dataset res ! 1 = [(''n'', JNull)]"
    unfolding tys using r0 r1 by simp
  with res show ?thesis by blast
qed

subsection \<open>C7\<close>

text \<open>
  \<^bold>\<open>C7\<close>.  The claim says that every parsed row has exactly the keys of the resolved
  type map.  The row parser visits the keys of its getter table, an object created as
  \<open>{}\<close>, and \<open>propGetters["__proto__"] = ...\<close> adds no key to it: the assignment makes
  the getter the prototype of the table.  On the row \<open>{a: "x"}\<close> with a type map whose
  own keys are \<open>__proto__\<close> and \<open>a\<close>, both String, the parsed row has the key \<open>a\<close>
  only.  For every other key of the type map the claim holds (\<open>parsed_row_keys\<close>).
\<close>

theorem parsed_row_keys_failure:
  "parseDataset sampleRuntime (JArr [JObj [(''a'', JStr ''x'')]])
     (Some [(''__proto__'', Ctor CString), (''a'', Ctor CString)]) =
   Inr \<lparr>dataset = [[(''a'', JStr ''x'')]],
        dataTypes = [(''__proto__'', Ctor CString), (''a'', Ctor CString)],
        errors = []\<rparr>"
  by (simp add: parser_eval)

subsection \<open>C8\<close>



subsection \<open>C9\<close>

text \<open>
  \<^bold>\<open>C9\<close>.  On data that is not an array, \<open>inferTypes\<close> returns the empty type map and
  raises nothing.
\<close>

theorem inferTypes_not_array:
  assumes "\<not> isArray data"
  shows "inferTypes rt data strict = Inr []"
  using assms by (cases data) (simp_all add: inferTypes_def)

text \<open>Instances: a single record instead of an array of records, and \<open>undefined\<close>.\<close>

theorem inferTypes_not_array_witness:
  "inferTypes sampleRuntime (JObj [(''a'', JStr ''3'')]) False = Inr [] \<and>
   inferTypes sampleRuntime JUndefined True = Inr []"
  using inferTypes_not_array[of "JObj [(''a'', JStr ''3'')]" sampleRuntime False]
    inferTypes_not_array[of JUndefined sampleRuntime True]
  by simp

subsection \<open>C10\<close>

text \<open>
  \<^bold>\<open>C10\<close>.  The claim says that every Boolean column parses a raw value that is
  neither \<open>null\<close> nor \<open>undefined\<close> by truthiness.  A column \<open>__proto__\<close> of the type
  map gets no getter, so its raw value is not parsed at all.  On the record
  \<open>{"__proto__": "x", b: "false"}\<close> (as \<open>JSON.parse\<close> builds it) with a type map whose
  own keys are \<open>__proto__\<close> and \<open>b\<close>, both Boolean, the raw value of the column
  \<open>__proto__\<close> is the text \<open>x\<close>, and the parsed row has no cell for it.  For every
  other column the claim holds (\<open>boolean_by_truthiness\<close>).
\<close>

theorem boolean_by_truthiness_failure:
  "get sampleRuntime (JObj [(''__proto__'', JStr ''x''), (''b'', JStr ''false'')]) ''__proto__'' =
     JStr ''x'' \<and>
   parseDataset sampleRuntime (JArr [JObj [(''__proto__'', JStr ''x''), (''b'', JStr ''false'')]])
     (Some [(''__proto__'', Ctor CBoolean), (''b'', Ctor CBoolean)]) =
   Inr \<lparr>dataset = [[(''b'', JBool True)]],
        dataTypes = [(''__proto__'', Ctor CBoolean), (''b'', Ctor CBoolean)],
        errors = []\<rparr>"
  by (simp add: parser_eval)

end
